theory Spec2Isabelle
  imports Main "HOL-Library.Word"
begin

section \<open>The on-disk format\<close>

type_synonym u8 = "8 word"
type_synonym u16 = "16 word"
type_synonym u32 = "32 word"

text \<open>
  Modelled from the spec: the headers \<^verbatim>\<open>types.h\<close> and \<^verbatim>\<open>fs.h\<close> that \<^verbatim>\<open>fcheck.c\<close> includes are
  missing from the sources. The spec (section 6) fixes the shape of the format: a block
  size, inode records of a type tag, device numbers, a link count, a size, N direct block
  numbers and one indirect block number, directory entries of an inode number and a
  fixed-length name, a bitmap of one bit per block. The numbers below are the ones of the
  xv6 format that the checker is written for; the inode type tags are the ones the comment
  of \<^verbatim>\<open>check_inode_type\<close> gives (T_FILE:2, T_DIR:1, T_DEV:3).
\<close>

definition BSIZE :: nat where "BSIZE = 512"
definition NDIRECT :: nat where "NDIRECT = 12"
definition NINDIRECT :: nat where "NINDIRECT = 128"
definition IPB :: nat where "IPB = 8"
definition BPB :: nat where "BPB = 4096"
definition DPB :: nat where "DPB = 32"
definition DINODE_SIZE :: nat where "DINODE_SIZE = 64"
definition DIRENT_SIZE :: nat where "DIRENT_SIZE = 16"

definition T_DIR :: u16 where "T_DIR = 1"
definition T_FILE :: u16 where "T_FILE = 2"
definition T_DEV :: u16 where "T_DEV = 3"

text \<open>\<^verbatim>\<open>#define BLOCK_SIZE (BSIZE)\<close>\<close>

definition BLOCK_SIZE :: nat where "BLOCK_SIZE = BSIZE"

section \<open>Outcomes\<close>

text \<open>
  Every \<^verbatim>\<open>printf\<close> of the checker is followed at once by \<^verbatim>\<open>exit(1)\<close>, so a run that ends
  with status 1 is one violation, and its output is the line of that violation. A run that
  reads outside the mapped image or indexes outside one of its arrays has no defined
  behaviour in C: the model stops there with \<open>Fault\<close>. \<open>Inr ()\<close> is a check that
  returned, having printed nothing.
\<close>

datatype violation =
    BadInode
  | BadDirectAddress
  | BadIndirectAddress
  | RootMissing
  | BadDirFormat
  | AddrMarkedFree
  | BitmapMarksUnused
  | DirectTwice
  | IndirectTwice
  | InodeNotInDir
  | InodeReferredFree
  | BadRefCount
  | DirTwice

fun message :: "violation \<Rightarrow> string" where
  "message BadInode = ''ERROR: bad inode.''"
| "message BadDirectAddress = ''ERROR: bad direct address in inode.''"
| "message BadIndirectAddress = ''ERROR: bad indirect address in inode.''"
| "message RootMissing = ''ERROR: root directory does not exist.''"
| "message BadDirFormat = ''ERROR: directory not properly formatted.''"
| "message AddrMarkedFree = ''ERROR: address used by inode but marked free in bitmap.''"
| "message BitmapMarksUnused = ''ERROR: bitmap marks block in use but it is not in use.''"
| "message DirectTwice = ''ERROR: direct address used more than once.''"
| "message IndirectTwice = ''ERROR: indirect address used more than once.''"
| "message InodeNotInDir = ''ERROR: inode marked use but not found in a directory.''"
| "message InodeReferredFree = ''ERROR: inode referred to in directory but marked free.''"
| "message BadRefCount = ''ERROR: bad reference count for file.''"
| "message DirTwice = ''ERROR: directory appears more than once in file system.''"

datatype error = Exit1 violation | Fault

definition bindE :: "error + 'a \<Rightarrow> ('a \<Rightarrow> error + 'b) \<Rightarrow> error + 'b" where
  "bindE r f = (case r of Inl e \<Rightarrow> Inl e | Inr v \<Rightarrow> f v)"

text \<open>A \<^verbatim>\<open>for\<close> loop over the indices \<open>is\<close> that threads a state and stops at the first error.\<close>

fun foldE :: "('i \<Rightarrow> 's \<Rightarrow> error + 's) \<Rightarrow> 'i list \<Rightarrow> 's \<Rightarrow> error + 's" where
  "foldE f [] s = Inr s"
| "foldE f (i # is) s = bindE (f i s) (foldE f is)"

text \<open>The same loop with no state.\<close>

fun for_each :: "'i list \<Rightarrow> ('i \<Rightarrow> error + unit) \<Rightarrow> error + unit" where
  "for_each [] f = Inr ()"
| "for_each (i # is) f = bindE (f i) (\<lambda>_. for_each is f)"

section \<open>The mapped image\<close>

text \<open>The image is the byte sequence of the file; integers are little-endian.\<close>

definition rd8 :: "u8 list \<Rightarrow> nat \<Rightarrow> error + u8" where
  "rd8 m a = (if a < length m then Inr (m ! a) else Inl Fault)"

definition rd16 :: "u8 list \<Rightarrow> nat \<Rightarrow> error + u16" where
  "rd16 m a =
     (if a + 2 \<le> length m
      then Inr (of_nat (unat (m ! a) + 256 * unat (m ! (a + 1))))
      else Inl Fault)"

definition rd32 :: "u8 list \<Rightarrow> nat \<Rightarrow> error + u32" where
  "rd32 m a =
     (if a + 4 \<le> length m
      then Inr (of_nat (unat (m ! a) + 256 * unat (m ! (a + 1))
                  + 65536 * unat (m ! (a + 2)) + 16777216 * unat (m ! (a + 3))))
      else Inl Fault)"

text \<open>
  \<^verbatim>\<open>strcmp(lit, p) == 0\<close> for a literal of nonzero bytes: the bytes at \<open>a\<close> are compared
  one by one with the literal and then with the terminating NUL, and no byte is read after
  the first difference.
\<close>

fun streq :: "u8 list \<Rightarrow> nat \<Rightarrow> u8 list \<Rightarrow> error + bool" where
  "streq m a [] = bindE (rd8 m a) (\<lambda>c. Inr (c = 0))"
| "streq m a (x # xs) = bindE (rd8 m a) (\<lambda>c. if c = x then streq m (a + 1) xs else Inr False)"

definition dot :: "u8 list" where "dot = [46]"
definition dotdot :: "u8 list" where "dotdot = [46, 46]"

record superblock =
  sb_size :: u32
  sb_nblocks :: u32
  sb_ninodes :: u32

text \<open>
  \<^verbatim>\<open>image_t\<close>. The pointers into the mapping are byte offsets from its start;
  \<open>mmapimage\<close> is the mapping itself.
\<close>

record image_t =
  numinodeblocks :: u32
  numbitmapblocks :: u32
  firstdatablock :: u32
  sb :: superblock
  inodeblocks :: nat
  bitmapblocks :: nat
  datablocks :: nat
  mmapimage :: "u8 list"

text \<open>
  \<^verbatim>\<open>mmapimage + blockaddr * BLOCK_SIZE\<close>: the product of a \<^verbatim>\<open>uint\<close> and an \<^verbatim>\<open>int\<close> is a
  \<^verbatim>\<open>uint\<close>, so it wraps at 32 bits.
\<close>

definition block_ptr :: "u32 \<Rightarrow> nat" where
  "block_ptr blockaddr = unat (blockaddr * of_nat BLOCK_SIZE)"

text \<open>\<^verbatim>\<open>((struct dinode *) image->inodeblocks) + i\<close>\<close>

definition inode_ptr :: "image_t \<Rightarrow> nat \<Rightarrow> nat" where
  "inode_ptr img i = inodeblocks img + i * DINODE_SIZE"

text \<open>
  The fields of \<^verbatim>\<open>struct dinode\<close> at the byte offset \<open>inode\<close>: \<^verbatim>\<open>short type, major, minor,
  nlink; uint size; uint addrs[NDIRECT+1]\<close>.
\<close>

definition dinode_type :: "image_t \<Rightarrow> nat \<Rightarrow> error + u16" where
  "dinode_type img inode = rd16 (mmapimage img) inode"

definition dinode_nlink :: "image_t \<Rightarrow> nat \<Rightarrow> error + u16" where
  "dinode_nlink img inode = rd16 (mmapimage img) (inode + 6)"

definition dinode_addrs :: "image_t \<Rightarrow> nat \<Rightarrow> nat \<Rightarrow> error + u32" where
  "dinode_addrs img inode i = rd32 (mmapimage img) (inode + 12 + 4 * i)"

text \<open>Entry \<open>j\<close> of the block \<open>blockaddr\<close> read as an array of \<^verbatim>\<open>uint\<close>.\<close>

definition indirect_entry :: "image_t \<Rightarrow> u32 \<Rightarrow> nat \<Rightarrow> error + u32" where
  "indirect_entry img blockaddr j = rd32 (mmapimage img) (block_ptr blockaddr + 4 * j)"

text \<open>
  The fields of \<^verbatim>\<open>struct dirent\<close> at the byte offset \<open>de\<close>: \<^verbatim>\<open>ushort inum; char name[DIRSIZ]\<close>.
  Entry \<open>j\<close> of the block \<open>blockaddr\<close> read as an array of \<^verbatim>\<open>struct dirent\<close> is at
  \<open>dirent_ptr blockaddr j\<close>.
\<close>

definition dirent_ptr :: "u32 \<Rightarrow> nat \<Rightarrow> nat" where
  "dirent_ptr blockaddr j = block_ptr blockaddr + j * DIRENT_SIZE"

definition dirent_inum :: "image_t \<Rightarrow> nat \<Rightarrow> error + u16" where
  "dirent_inum img de = rd16 (mmapimage img) de"

definition dirent_name_is :: "image_t \<Rightarrow> nat \<Rightarrow> u8 list \<Rightarrow> error + bool" where
  "dirent_name_is img de lit = streq (mmapimage img) (de + 2) lit"

text \<open>
  \<^verbatim>\<open>BITSET(image->bitmapblocks, blockaddr)\<close>: the byte at \<^verbatim>\<open>blockaddr / 8\<close> of the bitmap,
  masked with bit \<^verbatim>\<open>blockaddr % 8\<close>.
\<close>

definition BITSET :: "image_t \<Rightarrow> u32 \<Rightarrow> error + bool" where
  "BITSET img blockaddr =
     bindE (rd8 (mmapimage img) (bitmapblocks img + unat blockaddr div 8))
       (\<lambda>b. Inr (bit b (unat blockaddr mod 8)))"

text \<open>
  The counter arrays live on the stack and are indexed with no check: an index outside
  the array is a \<open>Fault\<close>.
\<close>

definition arr_get :: "'a list \<Rightarrow> nat \<Rightarrow> error + 'a" where
  "arr_get xs i = (if i < length xs then Inr (xs ! i) else Inl Fault)"

definition arr_set :: "'a list \<Rightarrow> nat \<Rightarrow> 'a \<Rightarrow> error + 'a list" where
  "arr_set xs i v = (if i < length xs then Inr (xs[i := v]) else Inl Fault)"

definition arr_incr :: "u32 list \<Rightarrow> nat \<Rightarrow> error + u32 list" where
  "arr_incr xs i = (if i < length xs then Inr (xs[i := xs ! i + 1]) else Inl Fault)"

text \<open>
  \<^verbatim>\<open>blockaddr - image->firstdatablock\<close>, the index into the arrays of \<^verbatim>\<open>bitmap_check\<close> and
  \<^verbatim>\<open>blockaddrs_check\<close>: a difference of two \<^verbatim>\<open>uint\<close>.
\<close>

definition db_index :: "image_t \<Rightarrow> u32 \<Rightarrow> nat" where
  "db_index img blockaddr = unat (blockaddr - firstdatablock img)"

section \<open>Rules 1 to 5: \<^verbatim>\<open>inode_check\<close>\<close>

definition check_inode_type :: "image_t \<Rightarrow> nat \<Rightarrow> error + unit" where
  "check_inode_type img inode =
     bindE (dinode_type img inode) (\<lambda>t.
       if t \<noteq> T_FILE \<and> t \<noteq> T_DIR \<and> t \<noteq> T_DEV then Inl (Exit1 BadInode) else Inr ())"

text \<open>\<^verbatim>\<open>blockaddr < 0\<close> is never true of a \<^verbatim>\<open>uint\<close>.\<close>

definition check_inode_direct_blocks :: "image_t \<Rightarrow> nat \<Rightarrow> error + unit" where
  "check_inode_direct_blocks img inode =
     for_each [0..<NDIRECT] (\<lambda>i.
       bindE (dinode_addrs img inode i) (\<lambda>blockaddr.
         if blockaddr = 0 then Inr ()
         else if sb_size (sb img) \<le> blockaddr then Inl (Exit1 BadDirectAddress)
         else Inr ()))"

definition check_inode_indirect_blocks :: "image_t \<Rightarrow> nat \<Rightarrow> error + unit" where
  "check_inode_indirect_blocks img inode =
     bindE (dinode_addrs img inode NDIRECT) (\<lambda>blockaddr.
       if blockaddr = 0 then Inr ()
       else if sb_size (sb img) \<le> blockaddr then Inl (Exit1 BadIndirectAddress)
       else for_each [0..<NINDIRECT] (\<lambda>i.
         bindE (indirect_entry img blockaddr i) (\<lambda>a.
           if a = 0 then Inr ()
           else if sb_size (sb img) \<le> a then Inl (Exit1 BadIndirectAddress)
           else Inr ())))"

text \<open>
  The body of the inner loop of \<^verbatim>\<open>check_dir\<close> for the entry at \<open>de\<close>; the state is
  \<open>(pfound, cfound)\<close>. \<^verbatim>\<open>strcmp\<close> is not called once the name has been found.
\<close>

definition check_dir_entry :: "image_t \<Rightarrow> nat \<Rightarrow> nat \<Rightarrow> bool \<times> bool \<Rightarrow> error + bool \<times> bool" where
  "check_dir_entry img inum de pc =
     (case pc of (pfound, cfound) \<Rightarrow>
       bindE (if \<not> cfound then dirent_name_is img de dot else Inr False) (\<lambda>chit.
       bindE (if chit
              then bindE (dirent_inum img de) (\<lambda>n.
                     if unat n \<noteq> inum then Inl (Exit1 BadDirFormat) else Inr ())
              else Inr ()) (\<lambda>_.
       bindE (if \<not> pfound then dirent_name_is img de dotdot else Inr False) (\<lambda>phit.
       bindE (if phit
              then bindE (dirent_inum img de) (\<lambda>n.
                     if (inum \<noteq> 1 \<and> unat n = inum) \<or> (inum = 1 \<and> unat n \<noteq> inum)
                     then Inl (Exit1 RootMissing) else Inr ())
              else Inr ()) (\<lambda>_.
       Inr (pfound \<or> phit, cfound \<or> chit))))))"

text \<open>\<^verbatim>\<open>pfound && cfound\<close>, the condition of the two \<^verbatim>\<open>break\<close>s.\<close>

definition found_both :: "bool \<times> bool \<Rightarrow> bool" where
  "found_both pc = (fst pc \<and> snd pc)"

text \<open>The inner loop over the entries \<open>js\<close> of one block, left by \<^verbatim>\<open>break\<close> once both are found.\<close>

fun check_dir_block ::
  "image_t \<Rightarrow> nat \<Rightarrow> u32 \<Rightarrow> nat list \<Rightarrow> bool \<times> bool \<Rightarrow> error + bool \<times> bool" where
  "check_dir_block img inum blockaddr [] pc = Inr pc"
| "check_dir_block img inum blockaddr (j # js) pc =
     bindE (check_dir_entry img inum (dirent_ptr blockaddr j) pc) (\<lambda>pc'.
       if found_both pc' then Inr pc'
       else check_dir_block img inum blockaddr js pc')"

text \<open>The outer loop over the direct slots \<open>is\<close>, left by the second \<^verbatim>\<open>break\<close>.\<close>

fun check_dir_blocks ::
  "image_t \<Rightarrow> nat \<Rightarrow> nat \<Rightarrow> nat list \<Rightarrow> bool \<times> bool \<Rightarrow> error + bool \<times> bool" where
  "check_dir_blocks img inode inum [] pc = Inr pc"
| "check_dir_blocks img inode inum (i # is) pc =
     bindE (dinode_addrs img inode i) (\<lambda>blockaddr.
       if blockaddr = 0 then check_dir_blocks img inode inum is pc
       else bindE (check_dir_block img inum blockaddr [0..<DPB] pc) (\<lambda>pc'.
         if found_both pc' then Inr pc'
         else check_dir_blocks img inode inum is pc'))"

definition check_dir :: "image_t \<Rightarrow> nat \<Rightarrow> nat \<Rightarrow> error + unit" where
  "check_dir img inode inum =
     bindE (check_dir_blocks img inode inum [0..<NDIRECT] (False, False)) (\<lambda>pc.
       if \<not> fst pc \<or> \<not> snd pc then Inl (Exit1 BadDirFormat) else Inr ())"

definition check_bitmap_addr :: "image_t \<Rightarrow> nat \<Rightarrow> error + unit" where
  "check_bitmap_addr img inode =
     for_each [0..<NDIRECT + 1] (\<lambda>i.
       bindE (dinode_addrs img inode i) (\<lambda>blockaddr.
         if blockaddr = 0 then Inr ()
         else bindE (BITSET img blockaddr) (\<lambda>b.
           if \<not> b then Inl (Exit1 AddrMarkedFree)
           else if i = NDIRECT
           then for_each [0..<NINDIRECT] (\<lambda>j.
                  bindE (indirect_entry img blockaddr j) (\<lambda>a.
                    if a = 0 then Inr ()
                    else bindE (BITSET img a) (\<lambda>b.
                      if \<not> b then Inl (Exit1 AddrMarkedFree) else Inr ())))
           else Inr ())))"

text \<open>The body of the loop of \<^verbatim>\<open>inode_check\<close> for inode number \<open>i\<close>.\<close>

definition inode_check_body :: "image_t \<Rightarrow> nat \<Rightarrow> error + unit" where
  "inode_check_body img i =
     (let inode = inode_ptr img i in
      bindE (dinode_type img inode) (\<lambda>t.
        if t = 0 then Inr ()
        else
          bindE (check_inode_type img inode) (\<lambda>_.
          bindE (check_inode_direct_blocks img inode) (\<lambda>_.
          bindE (check_inode_indirect_blocks img inode) (\<lambda>_.
          bindE (if i = 1
                 then (if t \<noteq> T_DIR then Inl (Exit1 RootMissing)
                       else check_dir img inode 1)
                 else Inr ()) (\<lambda>_.
          bindE (if i \<noteq> 1 \<and> t = T_DIR then check_dir img inode i else Inr ()) (\<lambda>_.
          check_bitmap_addr img inode)))))))"

definition inode_check :: "image_t \<Rightarrow> error + unit" where
  "inode_check img = for_each [0..<unat (sb_ninodes (sb img))] (inode_check_body img)"

section \<open>Rule 6: \<^verbatim>\<open>bitmap_check\<close>\<close>

definition get_used_dbs :: "image_t \<Rightarrow> nat \<Rightarrow> u32 list \<Rightarrow> error + u32 list" where
  "get_used_dbs img inode used_dbs =
     foldE (\<lambda>i used.
       bindE (dinode_addrs img inode i) (\<lambda>blockaddr.
         if blockaddr = 0 then Inr used
         else bindE (arr_set used (db_index img blockaddr) 1) (\<lambda>used.
           if i = NDIRECT
           then foldE (\<lambda>j used.
                  bindE (indirect_entry img blockaddr j) (\<lambda>a.
                    if a = 0 then Inr used
                    else arr_set used (db_index img a) 1))
                  [0..<NINDIRECT] used
           else Inr used)))
       [0..<NDIRECT + 1] used_dbs"

text \<open>The first loop of \<^verbatim>\<open>bitmap_check\<close>: the blocks in use by the inodes in use.\<close>

definition mark_used_dbs :: "image_t \<Rightarrow> error + u32 list" where
  "mark_used_dbs img =
     foldE (\<lambda>i used.
       bindE (dinode_type img (inode_ptr img i)) (\<lambda>t.
         if t = 0 then Inr used else get_used_dbs img (inode_ptr img i) used))
       [0..<unat (sb_ninodes (sb img))]
       (replicate (unat (sb_nblocks (sb img))) 0)"

definition bitmap_check :: "image_t \<Rightarrow> error + unit" where
  "bitmap_check img =
     bindE (mark_used_dbs img) (\<lambda>used_dbs.
       for_each [0..<unat (sb_nblocks (sb img))] (\<lambda>i.
         if used_dbs ! i = 0
         then bindE (BITSET img (of_nat i + firstdatablock img)) (\<lambda>b.
                if b then Inl (Exit1 BitmapMarksUnused) else Inr ())
         else Inr ()))"

section \<open>Rules 7 and 8: \<^verbatim>\<open>blockaddrs_check\<close>\<close>

definition fill_duaddrs :: "image_t \<Rightarrow> nat \<Rightarrow> u32 list \<Rightarrow> error + u32 list" where
  "fill_duaddrs img inode duaddrs =
     foldE (\<lambda>i du.
       bindE (dinode_addrs img inode i) (\<lambda>blockaddr.
         if blockaddr = 0 then Inr du else arr_incr du (db_index img blockaddr)))
       [0..<NDIRECT] duaddrs"

text \<open>The indirect slot is read and used as a block number as it is.\<close>

definition fill_iuaddrs :: "image_t \<Rightarrow> nat \<Rightarrow> u32 list \<Rightarrow> error + u32 list" where
  "fill_iuaddrs img inode iuaddrs =
     bindE (dinode_addrs img inode NDIRECT) (\<lambda>blockaddr.
       foldE (\<lambda>i iu.
         bindE (indirect_entry img blockaddr i) (\<lambda>a.
           if a = 0 then Inr iu else arr_incr iu (db_index img a)))
         [0..<NINDIRECT] iuaddrs)"

text \<open>The first loop of \<^verbatim>\<open>blockaddrs_check\<close>: the two arrays of counters.\<close>

definition count_addrs :: "image_t \<Rightarrow> error + u32 list \<times> u32 list" where
  "count_addrs img =
     foldE (\<lambda>i (du, iu).
       bindE (dinode_type img (inode_ptr img i)) (\<lambda>t.
         if t = 0 then Inr (du, iu)
         else bindE (fill_duaddrs img (inode_ptr img i) du) (\<lambda>du.
              bindE (fill_iuaddrs img (inode_ptr img i) iu) (\<lambda>iu.
              Inr (du, iu)))))
       [0..<unat (sb_ninodes (sb img))]
       (replicate (unat (sb_nblocks (sb img))) 0, replicate (unat (sb_nblocks (sb img))) 0)"

definition blockaddrs_check :: "image_t \<Rightarrow> error + unit" where
  "blockaddrs_check img =
     bindE (count_addrs img) (\<lambda>(duaddrs, iuaddrs).
       for_each [0..<unat (sb_nblocks (sb img))] (\<lambda>i.
         if 1 < duaddrs ! i then Inl (Exit1 DirectTwice)
         else if 1 < iuaddrs ! i then Inl (Exit1 IndirectTwice)
         else Inr ()))"

section \<open>Rules 9 to 12: \<^verbatim>\<open>directory_check\<close>\<close>

text \<open>
  The body of the two inner loops of \<^verbatim>\<open>traverse_dirs\<close> for the entry at \<open>dir\<close>; \<open>rec\<close> is
  the recursive call, which may not return (\<open>None\<close>). \<^verbatim>\<open>&&\<close> reads the name only of an
  entry whose inode number is not 0.
\<close>

definition traverse_entry ::
  "(nat \<Rightarrow> u32 list \<Rightarrow> (error + u32 list) option) \<Rightarrow> image_t \<Rightarrow> nat \<Rightarrow> u32 list
     \<Rightarrow> (error + u32 list) option" where
  "traverse_entry rec img dir inodemap =
     (case dirent_inum img dir of Inl e \<Rightarrow> Some (Inl e) | Inr n \<Rightarrow>
      if n = 0 then Some (Inr inodemap) else
      (case dirent_name_is img dir dot of Inl e \<Rightarrow> Some (Inl e) | Inr isdot \<Rightarrow>
       if isdot then Some (Inr inodemap) else
       (case dirent_name_is img dir dotdot of Inl e \<Rightarrow> Some (Inl e) | Inr isdotdot \<Rightarrow>
        if isdotdot then Some (Inr inodemap) else
        (case arr_incr inodemap (unat n) of Inl e \<Rightarrow> Some (Inl e) | Inr inodemap' \<Rightarrow>
         rec (unat n) inodemap'))))"

text \<open>A loop whose body may not return.\<close>

fun foldP ::
  "('i \<Rightarrow> 's \<Rightarrow> (error + 's) option) \<Rightarrow> 'i list \<Rightarrow> 's \<Rightarrow> (error + 's) option" where
  "foldP f [] s = Some (Inr s)"
| "foldP f (i # is) s =
     (case f i s of None \<Rightarrow> None | Some (Inl e) \<Rightarrow> Some (Inl e) | Some (Inr s') \<Rightarrow> foldP f is s')"

text \<open>The entries of one directory block.\<close>

definition traverse_block ::
  "(nat \<Rightarrow> u32 list \<Rightarrow> (error + u32 list) option) \<Rightarrow> image_t \<Rightarrow> u32 \<Rightarrow> u32 list
     \<Rightarrow> (error + u32 list) option" where
  "traverse_block rec img blockaddr inodemap =
     foldP (\<lambda>j. traverse_entry rec img (dirent_ptr blockaddr j)) [0..<DPB] inodemap"

text \<open>The body of \<^verbatim>\<open>traverse_dirs\<close> for the inode number \<open>inum\<close>, given the recursive call.\<close>

definition traverse_body ::
  "(nat \<Rightarrow> u32 list \<Rightarrow> (error + u32 list) option) \<Rightarrow> image_t \<Rightarrow> nat \<Rightarrow> u32 list
     \<Rightarrow> (error + u32 list) option" where
  "traverse_body rec img inum inodemap =
     (let rootinode = inode_ptr img inum in
      case dinode_type img rootinode of Inl e \<Rightarrow> Some (Inl e) | Inr t \<Rightarrow>
      if t \<noteq> T_DIR then Some (Inr inodemap) else
      (case foldP (\<lambda>i m.
              case dinode_addrs img rootinode i of Inl e \<Rightarrow> Some (Inl e) | Inr blockaddr \<Rightarrow>
              if blockaddr = 0 then Some (Inr m) else traverse_block rec img blockaddr m)
            [0..<NDIRECT] inodemap of
         None \<Rightarrow> None
       | Some (Inl e) \<Rightarrow> Some (Inl e)
       | Some (Inr m) \<Rightarrow>
         (case dinode_addrs img rootinode NDIRECT of Inl e \<Rightarrow> Some (Inl e) | Inr blockaddr \<Rightarrow>
          if blockaddr = 0 then Some (Inr m) else
          foldP (\<lambda>i m.
              case indirect_entry img blockaddr i of Inl e \<Rightarrow> Some (Inl e) | Inr a \<Rightarrow>
              if a = 0 then Some (Inr m) else traverse_block rec img a m)
            [0..<NINDIRECT] m)))"

text \<open>
  \<^verbatim>\<open>traverse_dirs\<close> recurses with no bound. The first argument bounds the depth of the
  recursion: \<open>None\<close> is a walk that needs more than that, and a walk that returns \<open>None\<close>
  at every depth is one that never returns.
\<close>

fun traverse_dirs ::
  "nat \<Rightarrow> image_t \<Rightarrow> nat \<Rightarrow> u32 list \<Rightarrow> (error + u32 list) option" where
  "traverse_dirs 0 img inum inodemap = None"
| "traverse_dirs (Suc fuel) img inum inodemap =
     traverse_body (traverse_dirs fuel img) img inum inodemap"

text \<open>The last loop of \<^verbatim>\<open>directory_check\<close>, over the inodes from 2 on.\<close>

definition directory_rules :: "image_t \<Rightarrow> u32 list \<Rightarrow> error + unit" where
  "directory_rules img inodemap =
     for_each [2..<unat (sb_ninodes (sb img))] (\<lambda>i.
       bindE (dinode_type img (inode_ptr img i)) (\<lambda>t.
         if t \<noteq> 0 \<and> inodemap ! i = 0 then Inl (Exit1 InodeNotInDir)
         else if 0 < sint (inodemap ! i) \<and> t = 0 then Inl (Exit1 InodeReferredFree)
         else bindE (if t = T_FILE
                     then bindE (dinode_nlink img (inode_ptr img i)) (\<lambda>nlink.
                            if sint nlink \<noteq> sint (inodemap ! i)
                            then Inl (Exit1 BadRefCount) else Inr ())
                     else Inr ()) (\<lambda>_.
           if t = T_DIR \<and> 1 < sint (inodemap ! i) then Inl (Exit1 DirTwice) else Inr ())))"

definition directory_check :: "nat \<Rightarrow> image_t \<Rightarrow> (error + unit) option" where
  "directory_check fuel img =
     (case bindE (arr_incr (replicate (unat (sb_ninodes (sb img))) 0) 0) (\<lambda>m. arr_incr m 1) of
        Inl e \<Rightarrow> Some (Inl e)
      | Inr inodemap \<Rightarrow>
        (case traverse_dirs fuel img 1 inodemap of
           None \<Rightarrow> None
         | Some (Inl e) \<Rightarrow> Some (Inl e)
         | Some (Inr inodemap') \<Rightarrow> Some (directory_rules img inodemap')))"

section \<open>\<^verbatim>\<open>main\<close>\<close>

text \<open>
  The layout that \<^verbatim>\<open>main\<close> computes from the superblock in block 1. The arguments, the
  opening and the mapping of the file are outside the model: \<open>mmapimage\<close> is the mapped
  file.
\<close>

definition read_superblock :: "u8 list \<Rightarrow> error + superblock" where
  "read_superblock m =
     bindE (rd32 m (1 * BLOCK_SIZE)) (\<lambda>s.
     bindE (rd32 m (1 * BLOCK_SIZE + 4)) (\<lambda>nb.
     bindE (rd32 m (1 * BLOCK_SIZE + 8)) (\<lambda>ni.
     Inr \<lparr>sb_size = s, sb_nblocks = nb, sb_ninodes = ni\<rparr>)))"

definition layout :: "superblock \<Rightarrow> u8 list \<Rightarrow> image_t" where
  "layout s m =
     (let nib = sb_ninodes s div of_nat IPB + 1;
          nbb = sb_size s div of_nat BPB + 1;
          ib = 2 * BLOCK_SIZE;
          bb = ib + unat (nib * of_nat BLOCK_SIZE);
          db = bb + unat (nbb * of_nat BLOCK_SIZE)
      in \<lparr>numinodeblocks = nib, numbitmapblocks = nbb, firstdatablock = nib + nbb + 2,
          sb = s, inodeblocks = ib, bitmapblocks = bb, datablocks = db, mmapimage = m\<rparr>)"

text \<open>
  \<^verbatim>\<open>main\<close> from the mapped image on: \<open>Some (Inr ())\<close> is \<^verbatim>\<open>exit(0)\<close> with nothing printed,
  \<open>Some (Inl (Exit1 v))\<close> is the line \<open>message v\<close> on standard output and \<^verbatim>\<open>exit(1)\<close>.
\<close>

definition fcheck :: "nat \<Rightarrow> u8 list \<Rightarrow> (error + unit) option" where
  "fcheck fuel m =
     (case read_superblock m of Inl e \<Rightarrow> Some (Inl e) | Inr s \<Rightarrow>
      (let img = layout s m in
       case bindE (inode_check img) (\<lambda>_.
            bindE (bitmap_check img) (\<lambda>_. blockaddrs_check img)) of
         Inl e \<Rightarrow> Some (Inl e)
       | Inr _ \<Rightarrow> directory_check fuel img))"

section \<open>Notions of the specification\<close>

text \<open>The ceiling of \<open>a / b\<close>, as the specification of the layout has it.\<close>

definition ceil_div :: "nat \<Rightarrow> nat \<Rightarrow> nat" where
  "ceil_div a b = (a + b - 1) div b"

text \<open>
  The value of an address field; a field outside the mapped image counts as the unused
  slot 0.
\<close>

definition addr_of :: "error + u32 \<Rightarrow> u32" where
  "addr_of r = (case r of Inl e \<Rightarrow> 0 | Inr a \<Rightarrow> a)"

text \<open>
  The addresses of the inode at \<open>inode\<close>, the unused slots left out: the direct addresses;
  the entries of a block read as an indirect block; the indirect slot followed by the
  entries of its block; and the three together.
\<close>

definition direct_addrs :: "image_t \<Rightarrow> nat \<Rightarrow> u32 list" where
  "direct_addrs img inode =
     filter (\<lambda>a. a \<noteq> 0) (map (\<lambda>i. addr_of (dinode_addrs img inode i)) [0..<NDIRECT])"

definition block_entries :: "image_t \<Rightarrow> u32 \<Rightarrow> u32 list" where
  "block_entries img blockaddr =
     filter (\<lambda>a. a \<noteq> 0) (map (\<lambda>j. addr_of (indirect_entry img blockaddr j)) [0..<NINDIRECT])"

definition indirect_addrs :: "image_t \<Rightarrow> nat \<Rightarrow> u32 list" where
  "indirect_addrs img inode =
     (if addr_of (dinode_addrs img inode NDIRECT) = 0 then []
      else addr_of (dinode_addrs img inode NDIRECT)
           # block_entries img (addr_of (dinode_addrs img inode NDIRECT)))"

definition used_addrs :: "image_t \<Rightarrow> nat \<Rightarrow> u32 list" where
  "used_addrs img inode = direct_addrs img inode @ indirect_addrs img inode"

text \<open>Inode number \<open>i\<close> is in use: its type tag is not 0.\<close>

definition inode_in_use :: "image_t \<Rightarrow> nat \<Rightarrow> bool" where
  "inode_in_use img i =
     (case dinode_type img (inode_ptr img i) of Inl e \<Rightarrow> False | Inr t \<Rightarrow> t \<noteq> 0)"

definition inodes_in_use :: "image_t \<Rightarrow> nat list" where
  "inodes_in_use img = filter (inode_in_use img) [0..<unat (sb_ninodes (sb img))]"

definition all_used_addrs :: "image_t \<Rightarrow> u32 list" where
  "all_used_addrs img = concat (map (\<lambda>i. used_addrs img (inode_ptr img i)) (inodes_in_use img))"

definition all_direct_addrs :: "image_t \<Rightarrow> u32 list" where
  "all_direct_addrs img = concat (map (\<lambda>i. direct_addrs img (inode_ptr img i)) (inodes_in_use img))"

text \<open>Rule 6: block \<open>b\<close> is reachable from the direct or indirect addresses of an inode in use.\<close>

definition block_referenced :: "image_t \<Rightarrow> u32 \<Rightarrow> bool" where
  "block_referenced img b = (b \<in> set (all_used_addrs img))"

text \<open>
  Rule 7, in the words of the specification: some block is a direct address of more than
  one inode, that is, of two inodes in use with different numbers.
\<close>

definition direct_shared :: "image_t \<Rightarrow> bool" where
  "direct_shared img =
     list_ex (\<lambda>i. list_ex (\<lambda>j. i \<noteq> j \<and>
        list_ex (\<lambda>b. b \<in> set (direct_addrs img (inode_ptr img j)))
          (direct_addrs img (inode_ptr img i)))
        (inodes_in_use img))
       (inodes_in_use img)"

text \<open>
  Rule 7, as \<^verbatim>\<open>fill_duaddrs\<close> counts: the number of direct slots of inodes in use that hold
  block \<open>b\<close>, two slots of one inode being two.
\<close>

definition direct_uses :: "image_t \<Rightarrow> u32 \<Rightarrow> nat" where
  "direct_uses img b = count_list (all_direct_addrs img) b"

text \<open>Block \<open>a\<close> is one of the \<open>nblocks\<close> blocks from the first data block on.\<close>

definition in_data_region :: "image_t \<Rightarrow> u32 \<Rightarrow> bool" where
  "in_data_region img a =
     (unat (firstdatablock img) \<le> unat a
      \<and> unat a < unat (firstdatablock img) + unat (sb_nblocks (sb img)))"

text \<open>
  The 64 bytes of the inode at \<open>inode\<close>, and the 512 bytes of the block \<open>blockaddr\<close>, lie
  inside the mapped image.
\<close>

definition inode_readable :: "image_t \<Rightarrow> nat \<Rightarrow> bool" where
  "inode_readable img inode = (inode + DINODE_SIZE \<le> length (mmapimage img))"

definition block_readable :: "image_t \<Rightarrow> u32 \<Rightarrow> bool" where
  "block_readable img blockaddr = (block_ptr blockaddr + BSIZE \<le> length (mmapimage img))"

text \<open>
  The inode table, the indirect blocks of the inodes in use, and the bytes of the bitmap
  for the data blocks lie inside the mapped image.
\<close>

definition inodes_readable :: "image_t \<Rightarrow> bool" where
  "inodes_readable img =
     list_all (\<lambda>i. inode_readable img (inode_ptr img i)) [0..<unat (sb_ninodes (sb img))]"

definition indirect_readable :: "image_t \<Rightarrow> bool" where
  "indirect_readable img =
     list_all (\<lambda>i. addr_of (dinode_addrs img (inode_ptr img i) NDIRECT) = 0
                 \<or> block_readable img (addr_of (dinode_addrs img (inode_ptr img i) NDIRECT)))
       (inodes_in_use img)"

definition bitmap_readable :: "image_t \<Rightarrow> bool" where
  "bitmap_readable img =
     list_all (\<lambda>i. case BITSET img (of_nat i + firstdatablock img) of
                     Inl e \<Rightarrow> False | Inr b \<Rightarrow> True)
       [0..<unat (sb_nblocks (sb img))]"

section \<open>Images\<close>

text \<open>
  A file system of five blocks and two inodes, of which inode 1 is the root directory: its
  one data block, block 4, holds the entries \<^verbatim>\<open>.\<close> and \<^verbatim>\<open>..\<close>, both for inode 1, and the
  bitmap marks block 4 alone. The superblock is at byte 512, inode 1 at byte 1088, the
  bitmap at byte 1536 and block 4 at byte 2048.
\<close>

definition root_only_image :: "u8 list" where
  "root_only_image = (replicate 2560 0)
     [512 := 5, 516 := 1, 520 := 2,
      1088 := 1, 1094 := 1, 1096 := 32, 1100 := 4,
      1536 := 16,
      2048 := 1, 2050 := 46,
      2064 := 1, 2066 := 46, 2067 := 46]"

text \<open>The same file system behind a boot block that is not all zero.\<close>

definition boot_image :: "u8 list" where
  "boot_image = root_only_image[0 := 4, 4 := 4]"

text \<open>The same file system with the blocks 0 to 4 marked in the bitmap.\<close>

definition mkfs_image :: "u8 list" where
  "mkfs_image = root_only_image[1536 := 31]"

text \<open>A file system of the same size in which every inode is free.\<close>

definition no_root_image :: "u8 list" where
  "no_root_image = (replicate 2560 0)[512 := 5, 516 := 1, 520 := 2]"

text \<open>The root directory lists block 4 in its first two direct slots.\<close>

definition dup_slot_image :: "u8 list" where
  "dup_slot_image = root_only_image[1104 := 4]"

text \<open>
  The root directory lists block 2, a block of the inode table, in its second direct slot;
  the bitmap marks the blocks 2 and 4.
\<close>

definition low_addr_image :: "u8 list" where
  "low_addr_image = root_only_image[1104 := 2, 1536 := 20]"

text \<open>The superblock of these images.\<close>

definition small_sb :: superblock where
  "small_sb = \<lparr>sb_size = 5, sb_nblocks = 1, sb_ninodes = 2\<rparr>"

text \<open>
  Rule 2, in the words of the specification: an address that is 0 is skipped, and an
  address that is not 0 must be below the total block count. \<open>address_violation\<close> is the
  violation that the rule finds in the inode at \<open>inode\<close>: a bad direct address for one of
  the direct slots, else a bad indirect address for the indirect slot or, when that slot is
  in range, for an entry of the block it names.
\<close>

definition out_of_range :: "image_t \<Rightarrow> error + u32 \<Rightarrow> bool" where
  "out_of_range img r = (case r of Inl e \<Rightarrow> False | Inr a \<Rightarrow> a \<noteq> 0 \<and> sb_size (sb img) \<le> a)"

definition address_violation :: "image_t \<Rightarrow> nat \<Rightarrow> violation option" where
  "address_violation img inode =
     (if list_ex (\<lambda>i. out_of_range img (dinode_addrs img inode i)) [0..<NDIRECT]
      then Some BadDirectAddress
      else case dinode_addrs img inode NDIRECT of
        Inl e \<Rightarrow> None
      | Inr blockaddr \<Rightarrow>
          if blockaddr = 0 then None
          else if sb_size (sb img) \<le> blockaddr then Some BadIndirectAddress
          else if list_ex (\<lambda>j. out_of_range img (indirect_entry img blockaddr j)) [0..<NINDIRECT]
          then Some BadIndirectAddress
          else None)"

text \<open>The root directory lists block 9 of a file system of five blocks in its second direct slot.\<close>

definition bad_direct_image :: "u8 list" where
  "bad_direct_image = root_only_image[1104 := 9]"

text \<open>
  The writes of a loop over a list of addresses into a counter array: \<open>set_all\<close> stores 1
  at the index of each address, \<open>incr_all\<close> adds 1 there.
\<close>

definition set_all :: "('a \<Rightarrow> nat) \<Rightarrow> 'a list \<Rightarrow> u32 list \<Rightarrow> u32 list" where
  "set_all idx as s = fold (\<lambda>a s. s[idx a := 1]) as s"

definition incr_all :: "('a \<Rightarrow> nat) \<Rightarrow> 'a list \<Rightarrow> u32 list \<Rightarrow> u32 list" where
  "incr_all idx as s = fold (\<lambda>a s. s[idx a := s ! idx a + 1]) as s"

text \<open>A file system of six blocks: the one of \<open>root_only_image\<close> and a second data block,
  block 5, that the bitmap marks and no inode uses.\<close>

definition spare_block_image :: "u8 list" where
  "spare_block_image = (replicate 3072 0)
     [512 := 6, 516 := 2, 520 := 2,
      1088 := 1, 1094 := 1, 1096 := 32, 1100 := 4,
      1536 := 48,
      2048 := 1, 2050 := 46,
      2064 := 1, 2066 := 46, 2067 := 46]"

definition spare_sb :: superblock where
  "spare_sb = \<lparr>sb_size = 6, sb_nblocks = 2, sb_ninodes = 2\<rparr>"

text \<open>
  Rule 6 for the data block of index \<open>i\<close>, block \<open>i + firstdatablock\<close>: the bitmap marks
  it and no inode in use reaches it.
\<close>

definition marked_unused :: "image_t \<Rightarrow> nat \<Rightarrow> bool" where
  "marked_unused img i =
     (BITSET img (of_nat i + firstdatablock img) = Inr True
      \<and> \<not> block_referenced img (of_nat i + firstdatablock img))"

text \<open>The 16 bytes of the directory entry at \<open>de\<close> lie inside the mapped image.\<close>

definition dirent_readable :: "image_t \<Rightarrow> nat \<Rightarrow> bool" where
  "dirent_readable img de = (de + DIRENT_SIZE \<le> length (mmapimage img))"

text \<open>
  The entry at \<open>de\<close> is named \<^verbatim>\<open>.\<close>, is named \<^verbatim>\<open>..\<close>; its inode number; and the test of
  rule 3 on a \<^verbatim>\<open>..\<close> entry of the directory \<open>inum\<close>: the root refers to itself, any other
  directory does not.
\<close>

definition is_dot :: "image_t \<Rightarrow> nat \<Rightarrow> bool" where
  "is_dot img de = (dirent_name_is img de dot = Inr True)"

definition is_dotdot :: "image_t \<Rightarrow> nat \<Rightarrow> bool" where
  "is_dotdot img de = (dirent_name_is img de dotdot = Inr True)"

definition de_inum :: "image_t \<Rightarrow> nat \<Rightarrow> nat" where
  "de_inum img de = (case dirent_inum img de of Inl e \<Rightarrow> 0 | Inr n \<Rightarrow> unat n)"

definition parent_ok :: "image_t \<Rightarrow> nat \<Rightarrow> nat \<Rightarrow> bool" where
  "parent_ok img inum de = (if inum = 1 then de_inum img de = 1 else de_inum img de \<noteq> inum)"

text \<open>The entries of the data blocks of the directory at \<open>inode\<close>, in the order of the scan.\<close>

definition dirent_ptrs :: "image_t \<Rightarrow> nat \<Rightarrow> nat list" where
  "dirent_ptrs img inode =
     concat (map (\<lambda>a. map (dirent_ptr a) [0..<DPB]) (direct_addrs img inode))"

text \<open>
  The dot-entry scan, in the words of the specification: it takes the first entry named
  \<^verbatim>\<open>.\<close> and the first entry named \<^verbatim>\<open>..\<close> of the entries \<open>des\<close>, and no other entry of
  either name. The first \<^verbatim>\<open>.\<close> must refer to the directory and the first \<^verbatim>\<open>..\<close> must pass
  the test of rule 3; when both fail, the one that comes first in the scan is reported. A
  name that is absent is a malformed directory.
\<close>

definition dot_scan :: "image_t \<Rightarrow> nat \<Rightarrow> nat list \<Rightarrow> error + unit" where
  "dot_scan img inum des =
     (let c = find (is_dot img) des;
          p = find (is_dotdot img) des;
          cbad = (case c of None \<Rightarrow> False | Some de \<Rightarrow> de_inum img de \<noteq> inum);
          pbad = (case p of None \<Rightarrow> False | Some de \<Rightarrow> \<not> parent_ok img inum de)
      in if cbad \<and> pbad
         then (case find (\<lambda>de. is_dot img de \<or> is_dotdot img de) des of
                 None \<Rightarrow> Inl (Exit1 BadDirFormat)
               | Some de \<Rightarrow> if is_dot img de then Inl (Exit1 BadDirFormat)
                            else Inl (Exit1 RootMissing))
         else if cbad then Inl (Exit1 BadDirFormat)
         else if pbad then Inl (Exit1 RootMissing)
         else if c = None \<or> p = None then Inl (Exit1 BadDirFormat)
         else Inr ())"

text \<open>
  The root directory of \<open>root_only_image\<close> with a third entry, a second \<^verbatim>\<open>.\<close> that refers
  to inode 7.
\<close>

definition dup_dot_image :: "u8 list" where
  "dup_dot_image = root_only_image[2080 := 7, 2082 := 46]"

text \<open>\<open>dot_scan\<close> from the middle of a scan, with the two flags as they are there.\<close>

definition dot_scan_from ::
  "image_t \<Rightarrow> nat \<Rightarrow> nat list \<Rightarrow> bool \<times> bool \<Rightarrow> error + bool \<times> bool" where
  "dot_scan_from img inum des pc =
     (let c = (if snd pc then None else find (is_dot img) des);
          p = (if fst pc then None else find (is_dotdot img) des);
          cbad = (case c of None \<Rightarrow> False | Some de \<Rightarrow> de_inum img de \<noteq> inum);
          pbad = (case p of None \<Rightarrow> False | Some de \<Rightarrow> \<not> parent_ok img inum de)
      in if cbad \<and> pbad
         then (case find (\<lambda>de. is_dot img de \<or> is_dotdot img de) des of
                 None \<Rightarrow> Inl (Exit1 BadDirFormat)
               | Some de \<Rightarrow> if is_dot img de then Inl (Exit1 BadDirFormat)
                            else Inl (Exit1 RootMissing))
         else if cbad then Inl (Exit1 BadDirFormat)
         else if pbad then Inl (Exit1 RootMissing)
         else Inr (fst pc \<or> p \<noteq> None, snd pc \<or> c \<noteq> None))"

text \<open>The two loops of \<^verbatim>\<open>check_dir\<close> as one loop over the entries.\<close>

fun scan_entries ::
  "image_t \<Rightarrow> nat \<Rightarrow> nat list \<Rightarrow> bool \<times> bool \<Rightarrow> error + bool \<times> bool" where
  "scan_entries img inum [] pc = Inr pc"
| "scan_entries img inum (de # des) pc =
     (if found_both pc then Inr pc
      else bindE (check_dir_entry img inum de pc) (scan_entries img inum des))"

section \<open>The directory graph\<close>










section \<open>The layout\<close>

lemma unat_div_plus1:
  fixes x :: u32
  assumes "1 < k" "k < 2 ^ 32"
  shows "unat (x div of_nat k + 1) = unat x div k + 1"
proof -
  have k: "unat (of_nat k :: u32) = k" using assms by (simp add: unat_of_nat)
  have d: "unat (x div of_nat k) = unat x div k" by (simp add: unat_div k)
  have "unat x < 2 ^ 32" using unsigned_less [of x] by simp
  moreover have "unat x div k \<le> unat x div 2" using assms by (intro div_le_mono2) auto
  ultimately have "unat x div k + 1 < 2 ^ 32" by simp
  then have "unat (x div of_nat k) + unat (1 :: u32) < 2 ^ LENGTH(32)" by (simp add: d)
  then have "unat (x div of_nat k + 1) = unat (x div of_nat k) + unat (1 :: u32)"
    by (simp only: unat_add_lem)
  then show ?thesis by (simp add: d)
qed

lemma ceil_div_floor: "0 < b \<Longrightarrow> \<not> b dvd a \<Longrightarrow> ceil_div a b = a div b + 1"
proof -
  assume b: "0 < b" and nd: "\<not> b dvd a"
  define q where "q = a div b"
  have "0 < a mod b" using nd by (simp add: dvd_eq_mod_eq_0)
  then obtain r where r: "a mod b = Suc r" by (cases "a mod b") auto
  have rb: "r < b" using mod_less_divisor [OF b, of a] r by simp
  have e: "a = q * b + Suc r" using div_mult_mod_eq [of a b] r by (simp add: q_def)
  have h: "a + b - 1 = r + (q + 1) * b" unfolding e by (simp add: algebra_simps)
  have "(r + (q + 1) * b) div b = (q + 1) + r div b"
    using b by (intro div_mult_self1) simp
  then have "(a + b - 1) div b = q + 1" using rb by (simp only: h div_less add_0_right)
  then show ?thesis by (simp add: ceil_div_def q_def)
qed

lemma ceil_div_dvd: "0 < b \<Longrightarrow> b dvd a \<Longrightarrow> ceil_div a b = a div b"
proof -
  assume b: "0 < b" and d: "b dvd a"
  then obtain q where q: "a = q * b" by (auto simp: dvd_def)
  obtain c where c: "b = Suc c" using b by (cases b) auto
  have h: "a + b - 1 = c + q * b" unfolding q by (simp add: c)
  have cb: "c < b" by (simp add: c)
  have "(c + q * b) div b = q + c div b"
    using b by (intro div_mult_self1) simp
  then have "(a + b - 1) div b = q" using cb by (simp only: h div_less add_0_right)
  then show ?thesis using b q by (simp add: ceil_div_def)
qed

lemma layout_nib: "unat (numinodeblocks (layout s m)) = unat (sb_ninodes s) div IPB + 1"
  using unat_div_plus1 [of 8 "sb_ninodes s"] by (simp add: layout_def Let_def IPB_def)

lemma layout_nbb: "unat (numbitmapblocks (layout s m)) = unat (sb_size s) div BPB + 1"
  using unat_div_plus1 [of 4096 "sb_size s"] by (simp add: layout_def Let_def BPB_def)

lemma layout_fdb:
  "unat (firstdatablock (layout s m))
     = 2 + unat (numinodeblocks (layout s m)) + unat (numbitmapblocks (layout s m))"
proof -
  let ?a = "numinodeblocks (layout s m)" and ?b = "numbitmapblocks (layout s m)"
  have s: "unat (sb_ninodes s) < 2 ^ 32" "unat (sb_size s) < 2 ^ 32"
    using unsigned_less [of "sb_ninodes s"] unsigned_less [of "sb_size s"] by simp_all
  have a: "unat ?a < 2 ^ 29 + 1" using s(1) by (simp add: layout_nib IPB_def)
  have b: "unat ?b < 2 ^ 20 + 1" using s(2) by (simp add: layout_nbb BPB_def)
  have f: "firstdatablock (layout s m) = ?a + ?b + 2" by (simp add: layout_def Let_def)
  have "unat ?a + unat ?b < 2 ^ LENGTH(32)" using a b by simp
  then have ab: "unat (?a + ?b) = unat ?a + unat ?b"
    by (simp only: unat_add_lem)
  have "unat (?a + ?b) + unat (2 :: u32) < 2 ^ LENGTH(32)" using a b ab by simp
  then have "unat (?a + ?b + 2) = unat (?a + ?b) + unat (2 :: u32)"
    by (simp only: unat_add_lem)
  then show ?thesis using ab by (simp add: f)
qed

text \<open>
  C4, as the code has it. For every superblock, \<^verbatim>\<open>main\<close> computes the inode-table block
  count as the quotient of ninodes by inodes-per-block, rounded down, plus one, and the
  bitmap block count as the quotient of the total block count by bits-per-block, rounded
  down, plus one; none of the three sums wraps. Each count is the ceiling when the value is
  not a multiple of the per-block capacity, and one more than the ceiling when it is. The
  first data block number is 2 plus the two counts.
\<close>

theorem layout_counts:
  "unat (numinodeblocks (layout s m)) = unat (sb_ninodes s) div IPB + 1
   \<and> unat (numbitmapblocks (layout s m)) = unat (sb_size s) div BPB + 1
   \<and> unat (firstdatablock (layout s m))
       = 2 + unat (numinodeblocks (layout s m)) + unat (numbitmapblocks (layout s m))
   \<and> unat (numinodeblocks (layout s m))
       = (if IPB dvd unat (sb_ninodes s) then ceil_div (unat (sb_ninodes s)) IPB + 1
          else ceil_div (unat (sb_ninodes s)) IPB)
   \<and> unat (numbitmapblocks (layout s m))
       = (if BPB dvd unat (sb_size s) then ceil_div (unat (sb_size s)) BPB + 1
          else ceil_div (unat (sb_size s)) BPB)"
proof -
  have i: "0 < IPB" and b: "0 < BPB" by (simp_all add: IPB_def BPB_def)
  show ?thesis
    using layout_nib [of s m] layout_nbb [of s m] layout_fdb [of s m]
    by (simp add: ceil_div_floor [OF i] ceil_div_dvd [OF i]
        ceil_div_floor [OF b] ceil_div_dvd [OF b])
qed

text \<open>
  C4, as the specification states it, fails on a superblock whose inode count and block
  count are multiples of the per-block capacities: with 8 inodes and 4096 blocks the
  ceilings are 1 and 1, and the code computes 2 and 2, so the first data block is 6 and
  not 4.
\<close>

theorem layout_ceiling_counterexample:
  "unat (numinodeblocks (layout \<lparr>sb_size = 4096, sb_nblocks = 4090, sb_ninodes = 8\<rparr> [])) = 2
   \<and> ceil_div (unat (sb_ninodes \<lparr>sb_size = 4096, sb_nblocks = 4090, sb_ninodes = 8\<rparr>)) IPB = 1
   \<and> unat (numbitmapblocks (layout \<lparr>sb_size = 4096, sb_nblocks = 4090, sb_ninodes = 8\<rparr> [])) = 2
   \<and> ceil_div (unat (sb_size \<lparr>sb_size = 4096, sb_nblocks = 4090, sb_ninodes = 8\<rparr>)) BPB = 1
   \<and> unat (firstdatablock (layout \<lparr>sb_size = 4096, sb_nblocks = 4090, sb_ninodes = 8\<rparr> [])) = 6"
  by (simp add: layout_def Let_def ceil_div_def IPB_def BPB_def)

section \<open>Evaluation on the images\<close>

lemma upt_0_2: "[0..<2] = [0, 1]"
  by (simp add: upt_conv_Cons)

lemma upt_0_8: "[0..<8] = [0, 1, 2, 3, 4, 5, 6, 7]"
  by (simp add: upt_conv_Cons)

lemma upt_0_12: "[0..<12] = [0..<8] @ [8, 9, 10, 11]"
  by (simp add: upt_conv_Cons)

lemma upt_0_13: "[0..<13] = [0..<8] @ [8, 9, 10, 11, 12]"
  by (simp add: upt_conv_Cons)

lemma upt_0_32: "[0..<32] = concat (map (\<lambda>k. map (\<lambda>i. 8 * k + i) [0..<8]) [0, 1, 2, 3])"
  by (simp add: upt_conv_Cons)

lemma upt_0_128:
  "[0..<128] = concat (map (\<lambda>k. map (\<lambda>i. 32 * k + i) [0..<32]) [0, 1, 2, 3])"
  by (simp add: upt_conv_Cons)

lemmas fs_consts = BLOCK_SIZE_def BSIZE_def NDIRECT_def NINDIRECT_def IPB_def BPB_def DPB_def
  DINODE_SIZE_def DIRENT_SIZE_def T_DIR_def T_FILE_def T_DEV_def dot_def dotdot_def

lemmas accessors = rd8_def rd16_def rd32_def block_ptr_def inode_ptr_def dinode_type_def
  dinode_nlink_def dinode_addrs_def indirect_entry_def dirent_ptr_def dirent_inum_def
  dirent_name_is_def BITSET_def arr_get_def arr_set_def arr_incr_def db_index_def bindE_def

lemmas loops = upt_0_2 upt_0_8 upt_0_12 upt_0_13 upt_0_32 upt_0_128 Let_def

lemmas inode_checks = inode_check_def inode_check_body_def check_inode_type_def
  check_inode_direct_blocks_def check_inode_indirect_blocks_def check_bitmap_addr_def
  check_dir_def check_dir_entry_def found_both_def

lemmas bitmap_checks = bitmap_check_def mark_used_dbs_def get_used_dbs_def

lemmas blockaddrs_checks = blockaddrs_check_def count_addrs_def fill_duaddrs_def fill_iuaddrs_def

lemmas directory_checks = directory_check_def directory_rules_def traverse_body_def
  traverse_block_def traverse_entry_def

lemmas images = root_only_image_def boot_image_def mkfs_image_def no_root_image_def
  dup_slot_image_def low_addr_image_def

lemma small_layout:
  "layout small_sb m = \<lparr>numinodeblocks = 1, numbitmapblocks = 1, firstdatablock = 4,
     sb = small_sb, inodeblocks = 1024, bitmapblocks = 1536, datablocks = 2048, mmapimage = m\<rparr>"
  by (simp add: small_sb_def layout_def fs_consts Let_def)

lemma small_sb_sel: "sb_size small_sb = 5" "sb_nblocks small_sb = 1" "sb_ninodes small_sb = 2"
  by (simp_all add: small_sb_def)

lemma read_sb_images:
  "read_superblock root_only_image = Inr small_sb"
  "read_superblock boot_image = Inr small_sb"
  "read_superblock mkfs_image = Inr small_sb"
  "read_superblock no_root_image = Inr small_sb"
  "read_superblock dup_slot_image = Inr small_sb"
  "read_superblock low_addr_image = Inr small_sb"
  by (simp_all add: read_superblock_def images small_sb_def rd32_def BLOCK_SIZE_def BSIZE_def bindE_def)

lemmas spec_preds = addr_of_def direct_addrs_def block_entries_def indirect_addrs_def
  used_addrs_def inode_in_use_def inodes_in_use_def all_used_addrs_def all_direct_addrs_def
  block_referenced_def direct_shared_def direct_uses_def in_data_region_def
  inode_readable_def block_readable_def inodes_readable_def indirect_readable_def
  bitmap_readable_def

section \<open>The indirect slot in \<^verbatim>\<open>fill_iuaddrs\<close>\<close>

text \<open>
  C2 at the image \<open>boot_image\<close>. Inode 1 is in use and its indirect slot holds 0.
  \<^verbatim>\<open>fill_iuaddrs\<close> reads the entries of block 0 all the same: the first two words of the
  boot block are 4, and the counter of block 4 (index 0, the first data block) goes from 0
  to 2. The other readers of the slot (\<^verbatim>\<open>check_inode_indirect_blocks\<close>,
  \<^verbatim>\<open>check_bitmap_addr\<close>, \<^verbatim>\<open>get_used_dbs\<close>, \<^verbatim>\<open>traverse_dirs\<close>) test it against 0 first.
\<close>

theorem fill_iuaddrs_reads_block_0:
  "dinode_type (layout small_sb boot_image) (inode_ptr (layout small_sb boot_image) 1) = Inr 1
   \<and> dinode_addrs (layout small_sb boot_image) (inode_ptr (layout small_sb boot_image) 1) NDIRECT
       = Inr 0
   \<and> indirect_entry (layout small_sb boot_image) 0 0 = Inr 4
   \<and> indirect_entry (layout small_sb boot_image) 0 1 = Inr 4
   \<and> fill_iuaddrs (layout small_sb boot_image) (inode_ptr (layout small_sb boot_image) 1) [0]
       = Inr [2]"
  by (simp add: small_layout small_sb_sel blockaddrs_checks fs_consts accessors loops images)

section \<open>A consistent image that is rejected\<close>

lemma boot_inode: "inode_check (layout small_sb boot_image) = Inr ()"
  by (simp add: small_layout small_sb_sel inode_checks fs_consts accessors loops images)

lemma boot_bitmap: "bitmap_check (layout small_sb boot_image) = Inr ()"
  by (simp add: small_layout small_sb_sel bitmap_checks fs_consts accessors loops images)

lemma boot_blockaddrs: "blockaddrs_check (layout small_sb boot_image) = Inl (Exit1 IndirectTwice)"
  by (simp add: small_layout small_sb_sel blockaddrs_checks fs_consts accessors loops images)

lemma root_only_inode: "inode_check (layout small_sb root_only_image) = Inr ()"
  by (simp add: small_layout small_sb_sel inode_checks fs_consts accessors loops images)

lemma root_only_bitmap: "bitmap_check (layout small_sb root_only_image) = Inr ()"
  by (simp add: small_layout small_sb_sel bitmap_checks fs_consts accessors loops images)

lemma root_only_blockaddrs: "blockaddrs_check (layout small_sb root_only_image) = Inr ()"
  by (simp add: small_layout small_sb_sel blockaddrs_checks fs_consts accessors loops images)

lemma root_only_directory:
  "directory_check (Suc 0) (layout small_sb root_only_image) = Some (Inr ())"
  by (simp add: small_layout small_sb_sel directory_checks fs_consts accessors loops images)

lemma root_only_fcheck: "fcheck (Suc 0) root_only_image = Some (Inr ())"
  by (simp add: fcheck_def read_sb_images root_only_inode root_only_bitmap root_only_blockaddrs
      root_only_directory bindE_def)

lemma boot_fcheck: "fcheck fuel boot_image = Some (Inl (Exit1 IndirectTwice))"
  by (simp add: fcheck_def read_sb_images boot_inode boot_bitmap boot_blockaddrs bindE_def)

text \<open>
  C1 at the image \<open>boot_image\<close>. The file system is the root directory alone and breaks
  none of the twelve rules; the image differs from \<open>root_only_image\<close>, which the checker
  accepts, in bytes 0 and 4 of the boot block only, a block that no rule is about. The
  checker prints the line of rule 8 and exits with status 1, at every depth of recursion
  allowed to the walk.
\<close>

theorem fcheck_rejects_consistent_image:
  "fcheck fuel boot_image = Some (Inl (Exit1 IndirectTwice))
   \<and> boot_image = root_only_image[0 := 4, 4 := 4]
   \<and> fcheck (Suc 0) root_only_image = Some (Inr ())"
proof (intro conjI)
  show "fcheck fuel boot_image = Some (Inl (Exit1 IndirectTwice))" by (rule boot_fcheck)
  show "boot_image = root_only_image[0 := 4, 4 := 4]" by (rule boot_image_def)
  show "fcheck (Suc 0) root_only_image = Some (Inr ())" by (rule root_only_fcheck)
qed

section \<open>The root directory\<close>

lemma no_root_inode: "inode_check (layout small_sb no_root_image) = Inr ()"
  by (simp add: small_layout small_sb_sel inode_checks fs_consts accessors loops images)

lemma no_root_bitmap: "bitmap_check (layout small_sb no_root_image) = Inr ()"
  by (simp add: small_layout small_sb_sel bitmap_checks fs_consts accessors loops images)

lemma no_root_blockaddrs: "blockaddrs_check (layout small_sb no_root_image) = Inr ()"
  by (simp add: small_layout small_sb_sel blockaddrs_checks fs_consts accessors loops images)

lemma no_root_directory:
  "directory_check (Suc 0) (layout small_sb no_root_image) = Some (Inr ())"
  by (simp add: small_layout small_sb_sel directory_checks fs_consts accessors loops images)

lemma no_root_type:
  "dinode_type (layout small_sb no_root_image) (inode_ptr (layout small_sb no_root_image) 1)
     = Inr 0"
  by (simp add: small_layout fs_consts accessors images)

text \<open>
  C5 at the image \<open>no_root_image\<close>. Inode 1 is free, so it is not a directory in use.
  The loop of \<^verbatim>\<open>inode_check\<close> leaves a free inode by \<^verbatim>\<open>continue\<close> before it reaches the
  test of inode 1, and nothing else looks for the root: the checker prints nothing and
  exits with status 0.
\<close>

theorem fcheck_accepts_missing_root:
  "dinode_type (layout small_sb no_root_image) (inode_ptr (layout small_sb no_root_image) 1)
     = Inr 0
   \<and> read_superblock no_root_image = Inr small_sb
   \<and> fcheck (Suc 0) no_root_image = Some (Inr ())"
proof (intro conjI)
  show "dinode_type (layout small_sb no_root_image)
          (inode_ptr (layout small_sb no_root_image) 1) = Inr 0"
    by (rule no_root_type)
  show "read_superblock no_root_image = Inr small_sb" by (rule read_sb_images)
  show "fcheck (Suc 0) no_root_image = Some (Inr ())"
    by (simp add: fcheck_def read_sb_images no_root_inode no_root_bitmap no_root_blockaddrs
        no_root_directory bindE_def)
qed

section \<open>Rule 6\<close>

lemma mkfs_inode: "inode_check (layout small_sb mkfs_image) = Inr ()"
  by (simp add: small_layout small_sb_sel inode_checks fs_consts accessors loops images)

lemma mkfs_bitmap: "bitmap_check (layout small_sb mkfs_image) = Inr ()"
  by (simp add: small_layout small_sb_sel bitmap_checks fs_consts accessors loops images)

lemma mkfs_blockaddrs: "blockaddrs_check (layout small_sb mkfs_image) = Inr ()"
  by (simp add: small_layout small_sb_sel blockaddrs_checks fs_consts accessors loops images)

lemma mkfs_directory: "directory_check (Suc 0) (layout small_sb mkfs_image) = Some (Inr ())"
  by (simp add: small_layout small_sb_sel directory_checks fs_consts accessors loops images)

lemma mkfs_marked: "BITSET (layout small_sb mkfs_image) 1 = Inr True"
  by (simp add: small_layout small_sb_sel fs_consts accessors images)

lemma mkfs_unreferenced: "\<not> block_referenced (layout small_sb mkfs_image) 1"
  by (simp add: small_layout small_sb_sel spec_preds fs_consts accessors loops images)

text \<open>
  C3, as the specification states it, fails at the image \<open>mkfs_image\<close>: block 1, the
  superblock, is marked in the bitmap and no inode in use refers to it, and the checker
  prints nothing and exits with status 0. \<^verbatim>\<open>bitmap_check\<close> looks at the blocks from the
  first data block on.
\<close>

theorem bitmap_check_below_data_counterexample:
  "BITSET (layout small_sb mkfs_image) 1 = Inr True
   \<and> \<not> block_referenced (layout small_sb mkfs_image) 1
   \<and> read_superblock mkfs_image = Inr small_sb
   \<and> fcheck (Suc 0) mkfs_image = Some (Inr ())"
  by (simp add: fcheck_def read_sb_images mkfs_inode mkfs_bitmap mkfs_blockaddrs mkfs_directory
      mkfs_marked mkfs_unreferenced bindE_def)

section \<open>Rule 7\<close>

lemma dup_inode: "inode_check (layout small_sb dup_slot_image) = Inr ()"
  by (simp add: small_layout small_sb_sel inode_checks fs_consts accessors loops images)

lemma dup_bitmap: "bitmap_check (layout small_sb dup_slot_image) = Inr ()"
  by (simp add: small_layout small_sb_sel bitmap_checks fs_consts accessors loops images)

lemma dup_blockaddrs:
  "blockaddrs_check (layout small_sb dup_slot_image) = Inl (Exit1 DirectTwice)"
  by (simp add: small_layout small_sb_sel blockaddrs_checks fs_consts accessors loops images)

lemma dup_not_shared: "\<not> direct_shared (layout small_sb dup_slot_image)"
  by (simp add: small_layout small_sb_sel spec_preds fs_consts accessors loops images)

text \<open>
  C6, as the specification states it, fails at the image \<open>dup_slot_image\<close>: one inode
  alone is in use, it lists block 4 in two of its direct slots, no block is a direct
  address of two inodes, and the checker prints the line of rule 7 and exits with status 1.
\<close>

theorem direct_twice_one_inode_counterexample:
  "fcheck (Suc 0) dup_slot_image = Some (Inl (Exit1 DirectTwice))
   \<and> read_superblock dup_slot_image = Inr small_sb
   \<and> \<not> direct_shared (layout small_sb dup_slot_image)"
  by (simp add: fcheck_def read_sb_images dup_inode dup_bitmap dup_blockaddrs dup_not_shared
      bindE_def)

section \<open>The index into the counter arrays\<close>

lemma low_inode: "inode_check (layout small_sb low_addr_image) = Inr ()"
  by (simp add: small_layout small_sb_sel inode_checks fs_consts accessors loops images)

lemma low_bitmap: "bitmap_check (layout small_sb low_addr_image) = Inl Fault"
  by (simp add: small_layout small_sb_sel bitmap_checks fs_consts accessors loops images)

lemma low_addr:
  "dinode_addrs (layout small_sb low_addr_image) (inode_ptr (layout small_sb low_addr_image) 1) 1
     = Inr 2"
  by (simp add: small_layout small_sb_sel fs_consts accessors loops images)

lemma low_index: "db_index (layout small_sb low_addr_image) 2 = 4294967294"
  by (simp add: small_layout small_sb_sel fs_consts accessors loops images)

section \<open>Loops and reads\<close>

lemma bindE_Inr [simp]: "bindE (Inr v) f = f v"
  by (simp add: bindE_def)

lemma bindE_Inl [simp]: "bindE (Inl e) f = Inl e"
  by (simp add: bindE_def)

lemma bindE_eq_Inr: "bindE r f = Inr y \<longleftrightarrow> (\<exists>v. r = Inr v \<and> f v = Inr y)"
  by (cases r) auto

lemma bindE_eq_Inl: "bindE r f = Inl e \<longleftrightarrow> r = Inl e \<or> (\<exists>v. r = Inr v \<and> f v = Inl e)"
  by (cases r) auto

lemma for_each_Inr: "for_each is f = Inr () \<longleftrightarrow> (\<forall>i\<in>set is. f i = Inr ())"
  by (induction "is") (auto simp: bindE_eq_Inr)

lemma for_each_append:
  "for_each (xs @ ys) f = bindE (for_each xs f) (\<lambda>_. for_each ys f)"
  by (induction xs) (auto simp: bindE_def split: sum.splits)

lemma for_each_skip:
  "\<forall>i\<in>set xs. f i = Inr () \<Longrightarrow> for_each (xs @ ys) f = for_each ys f"
  using for_each_Inr [of xs f] by (simp add: for_each_append)

lemma for_each_upt_first:
  assumes "a \<le> i" "i < b" "\<forall>k. a \<le> k \<and> k < i \<longrightarrow> f k = Inr ()"
  shows "for_each [a..<b] f = bindE (f i) (\<lambda>_. for_each [Suc i..<b] f)"
proof -
  have "[a..<b] = [a..<i] @ i # [Suc i..<b]"
    using assms(1,2) by (metis le_add_diff_inverse less_imp_le_nat upt_add_eq_append upt_conv_Cons)
  then show ?thesis using assms(3) by (simp add: for_each_skip)
qed

lemma for_each_two_valued:
  assumes "\<forall>i\<in>set is. f i = Inr () \<or> f i = Inl e"
  shows "for_each is f = (if list_ex (\<lambda>i. f i = Inl e) is then Inl e else Inr ())"
  using assms by (induction "is") (auto simp: bindE_def split: sum.splits)

lemma rd32_Inr: "a + 4 \<le> length m \<Longrightarrow> \<exists>v. rd32 m a = Inr v"
  by (simp add: rd32_def)

lemma rd16_Inr: "a + 2 \<le> length m \<Longrightarrow> \<exists>v. rd16 m a = Inr v"
  by (simp add: rd16_def)

lemma dinode_addrs_readable:
  "inode_readable img inode \<Longrightarrow> i \<le> NDIRECT \<Longrightarrow> \<exists>a. dinode_addrs img inode i = Inr a"
  unfolding inode_readable_def dinode_addrs_def
  by (intro rd32_Inr) (simp add: DINODE_SIZE_def NDIRECT_def)

lemma indirect_entry_readable:
  "block_readable img blockaddr \<Longrightarrow> j < NINDIRECT \<Longrightarrow> \<exists>a. indirect_entry img blockaddr j = Inr a"
  unfolding block_readable_def indirect_entry_def
  by (intro rd32_Inr) (simp add: BSIZE_def NINDIRECT_def)

section \<open>Rule 2\<close>

lemma check_inode_direct_blocks_eq:
  assumes "inode_readable img inode"
  shows "check_inode_direct_blocks img inode =
     (if list_ex (\<lambda>i. out_of_range img (dinode_addrs img inode i)) [0..<NDIRECT]
      then Inl (Exit1 BadDirectAddress) else Inr ())"
proof -
  let ?f = "\<lambda>i. bindE (dinode_addrs img inode i) (\<lambda>blockaddr.
         if blockaddr = 0 then Inr ()
         else if sb_size (sb img) \<le> blockaddr then Inl (Exit1 BadDirectAddress)
         else Inr ())"
  have v: "?f i = (if out_of_range img (dinode_addrs img inode i)
                   then Inl (Exit1 BadDirectAddress) else Inr ())" if "i < NDIRECT" for i
    using dinode_addrs_readable [OF assms, of i] that by (auto simp: out_of_range_def)
  have "for_each [0..<NDIRECT] ?f
      = (if list_ex (\<lambda>i. ?f i = Inl (Exit1 BadDirectAddress)) [0..<NDIRECT]
         then Inl (Exit1 BadDirectAddress) else Inr ())"
    by (rule for_each_two_valued) (simp add: v)
  moreover have "list_ex (\<lambda>i. ?f i = Inl (Exit1 BadDirectAddress)) [0..<NDIRECT]
      = list_ex (\<lambda>i. out_of_range img (dinode_addrs img inode i)) [0..<NDIRECT]"
    by (auto simp: list_ex_iff v)
  ultimately show ?thesis by (simp add: check_inode_direct_blocks_def)
qed

lemma check_inode_indirect_blocks_eq:
  assumes "inode_readable img inode"
    and "\<And>a. dinode_addrs img inode NDIRECT = Inr a \<Longrightarrow> a \<noteq> 0 \<Longrightarrow> a < sb_size (sb img)
           \<Longrightarrow> block_readable img a"
  shows "check_inode_indirect_blocks img inode =
     (case dinode_addrs img inode NDIRECT of
        Inl e \<Rightarrow> Inl e
      | Inr blockaddr \<Rightarrow>
          if blockaddr = 0 then Inr ()
          else if sb_size (sb img) \<le> blockaddr then Inl (Exit1 BadIndirectAddress)
          else if list_ex (\<lambda>j. out_of_range img (indirect_entry img blockaddr j)) [0..<NINDIRECT]
          then Inl (Exit1 BadIndirectAddress)
          else Inr ())"
proof -
  obtain a where a: "dinode_addrs img inode NDIRECT = Inr a"
    using dinode_addrs_readable [OF assms(1), of NDIRECT] by auto
  show ?thesis
  proof (cases "a \<noteq> 0 \<and> a < sb_size (sb img)")
    case False
    then show ?thesis by (auto simp: check_inode_indirect_blocks_def a)
  next
    case True
    then have r: "block_readable img a" using assms(2) a by simp
    let ?f = "\<lambda>i. bindE (indirect_entry img a i) (\<lambda>a.
           if a = 0 then Inr ()
           else if sb_size (sb img) \<le> a then Inl (Exit1 BadIndirectAddress)
           else Inr ())"
    have v: "?f j = (if out_of_range img (indirect_entry img a j)
                     then Inl (Exit1 BadIndirectAddress) else Inr ())" if "j < NINDIRECT" for j
      using indirect_entry_readable [OF r that] by (auto simp: out_of_range_def)
    have "for_each [0..<NINDIRECT] ?f
        = (if list_ex (\<lambda>i. ?f i = Inl (Exit1 BadIndirectAddress)) [0..<NINDIRECT]
           then Inl (Exit1 BadIndirectAddress) else Inr ())"
      by (rule for_each_two_valued) (simp add: v)
    moreover have "list_ex (\<lambda>i. ?f i = Inl (Exit1 BadIndirectAddress)) [0..<NINDIRECT]
        = list_ex (\<lambda>j. out_of_range img (indirect_entry img a j)) [0..<NINDIRECT]"
      by (auto simp: list_ex_iff v)
    ultimately show ?thesis using True by (simp add: check_inode_indirect_blocks_def a)
  qed
qed

lemma address_checks_eq:
  assumes "inode_readable img inode"
    and "\<And>a. dinode_addrs img inode NDIRECT = Inr a \<Longrightarrow> a \<noteq> 0 \<Longrightarrow> a < sb_size (sb img)
           \<Longrightarrow> block_readable img a"
  shows "bindE (check_inode_direct_blocks img inode) (\<lambda>_. check_inode_indirect_blocks img inode)
     = (case address_violation img inode of None \<Rightarrow> Inr () | Some v \<Rightarrow> Inl (Exit1 v))"
proof -
  obtain a where a: "dinode_addrs img inode NDIRECT = Inr a"
    using dinode_addrs_readable [OF assms(1), of NDIRECT] by auto
  have i: "check_inode_indirect_blocks img inode =
     (if a = 0 then Inr ()
      else if sb_size (sb img) \<le> a then Inl (Exit1 BadIndirectAddress)
      else if list_ex (\<lambda>j. out_of_range img (indirect_entry img a j)) [0..<NINDIRECT]
      then Inl (Exit1 BadIndirectAddress)
      else Inr ())"
    using check_inode_indirect_blocks_eq [of img inode] assms by (simp add: a)
  show ?thesis
    by (simp add: check_inode_direct_blocks_eq [OF assms(1)] i address_violation_def a)
qed


lemma sb_layout [simp]: "sb (layout s m) = s"
  by (simp add: layout_def Let_def)

lemma mmapimage_layout [simp]: "mmapimage (layout s m) = m"
  by (simp add: layout_def Let_def)

lemma inode_check_first:
  assumes "i < unat (sb_ninodes (sb img))"
    and "\<forall>k<i. inode_check_body img k = Inr ()"
    and "inode_check_body img i = Inl e"
  shows "inode_check img = Inl e"
  using for_each_upt_first [of 0 i "unat (sb_ninodes (sb img))" "inode_check_body img"] assms
  by (simp add: inode_check_def)

lemma fcheck_inode_check_Inl:
  assumes "read_superblock m = Inr s" and "inode_check (layout s m) = Inl e"
  shows "fcheck fuel m = Some (Inl e)"
  using assms by (simp add: fcheck_def Let_def)

lemma inode_check_body_address:
  assumes t: "dinode_type img (inode_ptr img i) = Inr t" "t = T_FILE \<or> t = T_DIR \<or> t = T_DEV"
    and r: "inode_readable img (inode_ptr img i)"
    and b: "\<And>a. dinode_addrs img (inode_ptr img i) NDIRECT = Inr a \<Longrightarrow> a \<noteq> 0
           \<Longrightarrow> a < sb_size (sb img) \<Longrightarrow> block_readable img a"
    and v: "address_violation img (inode_ptr img i) = Some v"
  shows "inode_check_body img i = Inl (Exit1 v)"
proof -
  let ?ip = "inode_ptr img i"
  have t0: "t \<noteq> 0" using t(2) by (auto simp: T_FILE_def T_DIR_def T_DEV_def)
  have ty: "check_inode_type img ?ip = Inr ()"
    using t by (auto simp: check_inode_type_def)
  have e: "bindE (check_inode_direct_blocks img ?ip) (\<lambda>_. check_inode_indirect_blocks img ?ip)
      = Inl (Exit1 v)"
    using address_checks_eq [of img ?ip] r b by (simp add: v)
  show ?thesis
  proof (cases "check_inode_direct_blocks img ?ip")
    case (Inl x)
    then show ?thesis using e t(1) t0 ty by (simp add: inode_check_body_def Let_def)
  next
    case (Inr u)
    then show ?thesis using e t(1) t0 ty by (simp add: inode_check_body_def Let_def)
  qed
qed

text \<open>
  C7. Let inode \<open>i\<close> be in use with one of the three valid types, with its 64 bytes
  and, when its indirect slot is a nonzero address below the block count, the block of that
  slot inside the mapped image. Then the two address checks of \<^verbatim>\<open>inode_check\<close> return
  exactly what rule 2 says: slots and entries that are 0 are skipped, a nonzero direct
  address at or above the block count is a bad direct address, a nonzero indirect slot or
  entry of the indirect block at or above the block count is a bad indirect address, and
  anything else passes. When the scan reaches the inode (every inode before it passes its
  checks), the checker prints the line of that violation and exits with status 1.
\<close>

theorem bad_address_reported:
  assumes "read_superblock m = Inr s"
    and "i < unat (sb_ninodes s)"
    and "\<forall>k<i. inode_check_body (layout s m) k = Inr ()"
    and "dinode_type (layout s m) (inode_ptr (layout s m) i) = Inr t"
    and "t = T_FILE \<or> t = T_DIR \<or> t = T_DEV"
    and "inode_readable (layout s m) (inode_ptr (layout s m) i)"
    and "\<And>a. dinode_addrs (layout s m) (inode_ptr (layout s m) i) NDIRECT = Inr a \<Longrightarrow> a \<noteq> 0
           \<Longrightarrow> a < sb_size s \<Longrightarrow> block_readable (layout s m) a"
  shows "bindE (check_inode_direct_blocks (layout s m) (inode_ptr (layout s m) i))
           (\<lambda>_. check_inode_indirect_blocks (layout s m) (inode_ptr (layout s m) i))
         = (case address_violation (layout s m) (inode_ptr (layout s m) i) of
              None \<Rightarrow> Inr () | Some v \<Rightarrow> Inl (Exit1 v))
       \<and> (\<forall>v. address_violation (layout s m) (inode_ptr (layout s m) i) = Some v
             \<longrightarrow> fcheck fuel m = Some (Inl (Exit1 v)))"
proof (intro conjI allI impI)
  show "bindE (check_inode_direct_blocks (layout s m) (inode_ptr (layout s m) i))
           (\<lambda>_. check_inode_indirect_blocks (layout s m) (inode_ptr (layout s m) i))
         = (case address_violation (layout s m) (inode_ptr (layout s m) i) of
              None \<Rightarrow> Inr () | Some v \<Rightarrow> Inl (Exit1 v))"
    using assms(6,7) by (intro address_checks_eq) simp_all
next
  fix v
  assume v: "address_violation (layout s m) (inode_ptr (layout s m) i) = Some v"
  have "inode_check_body (layout s m) i = Inl (Exit1 v)"
    using assms(4,5,6,7) v by (intro inode_check_body_address [where t = t]) simp_all
  then have "inode_check (layout s m) = Inl (Exit1 v)"
    using assms(2,3) by (intro inode_check_first [of i]) simp_all
  then show "fcheck fuel m = Some (Inl (Exit1 v))"
    using assms(1) by (rule fcheck_inode_check_Inl [rotated])
qed


lemma bad_direct_body_0: "inode_check_body (layout small_sb bad_direct_image) 0 = Inr ()"
  by (simp add: small_layout small_sb_sel inode_checks fs_consts accessors loops images
      bad_direct_image_def)

lemma bad_direct_type:
  "dinode_type (layout small_sb bad_direct_image) (inode_ptr (layout small_sb bad_direct_image) 1)
     = Inr T_DIR"
  by (simp add: small_layout fs_consts accessors images bad_direct_image_def)

lemma bad_direct_slot:
  "dinode_addrs (layout small_sb bad_direct_image)
     (inode_ptr (layout small_sb bad_direct_image) 1) NDIRECT = Inr 0"
  by (simp add: small_layout fs_consts accessors images bad_direct_image_def)

lemma bad_direct_violation:
  "address_violation (layout small_sb bad_direct_image)
     (inode_ptr (layout small_sb bad_direct_image) 1) = Some BadDirectAddress"
  by (simp add: small_layout small_sb_sel address_violation_def out_of_range_def fs_consts
      accessors loops images bad_direct_image_def)

theorem bad_address_reported_witness:
  "address_violation (layout small_sb bad_direct_image)
     (inode_ptr (layout small_sb bad_direct_image) 1) = Some BadDirectAddress
   \<and> fcheck (Suc 0) bad_direct_image = Some (Inl (Exit1 BadDirectAddress))"
proof -
  let ?img = "layout small_sb bad_direct_image"
  have h1: "read_superblock bad_direct_image = Inr small_sb"
    by (simp add: read_superblock_def images bad_direct_image_def small_sb_def rd32_def
        BLOCK_SIZE_def BSIZE_def)
  have h2: "1 < unat (sb_ninodes small_sb)" by (simp add: small_sb_sel)
  have h3: "\<forall>k<1. inode_check_body ?img k = Inr ()" using bad_direct_body_0 by simp
  have h5: "T_DIR = T_FILE \<or> T_DIR = T_DIR \<or> T_DIR = T_DEV" by simp
  have h6: "inode_readable ?img (inode_ptr ?img 1)"
    by (simp add: inode_readable_def small_layout fs_consts accessors images bad_direct_image_def)
  have h7: "\<And>a. dinode_addrs ?img (inode_ptr ?img 1) NDIRECT = Inr a \<Longrightarrow> a \<noteq> 0
           \<Longrightarrow> a < sb_size small_sb \<Longrightarrow> block_readable ?img a"
    using bad_direct_slot by simp
  show ?thesis
    using bad_address_reported [OF h1 h2 h3 bad_direct_type h5 h6 h7, of "Suc 0"]
      bad_direct_violation
    by blast
qed

section \<open>The counter arrays\<close>

lemma foldE_append: "foldE f (xs @ ys) s = bindE (foldE f xs s) (foldE f ys)"
  by (induction xs arbitrary: s) (auto simp: bindE_def split: sum.splits)

lemma foldE_cong:
  "(\<And>i s. i \<in> set is \<Longrightarrow> f i s = g i s) \<Longrightarrow> foldE f is s = foldE g is s"
  by (induction "is" arbitrary: s) (auto simp: bindE_def split: sum.splits)

lemma foldE_reads:
  assumes "\<forall>i\<in>set is. \<exists>a. r i = Inr a"
  shows "foldE (\<lambda>i s. bindE (r i) (\<lambda>a. if a = 0 then Inr s else g a s)) is s
       = foldE g (filter (\<lambda>a. a \<noteq> 0) (map (\<lambda>i. addr_of (r i)) is)) s"
  using assms
proof (induction "is" arbitrary: s)
  case Nil
  then show ?case by simp
next
  case (Cons i "is")
  then obtain a where a: "r i = Inr a" by auto
  show ?case using Cons by (auto simp: a addr_of_def bindE_def split: sum.splits)
qed

lemma length_set_all [simp]: "length (set_all idx as s) = length s"
  by (induction as arbitrary: s) (simp_all add: set_all_def)

lemma length_incr_all [simp]: "length (incr_all idx as s) = length s"
  by (induction as arbitrary: s) (simp_all add: incr_all_def)

lemma set_all_append: "set_all idx (xs @ ys) s = set_all idx ys (set_all idx xs s)"
  by (simp add: set_all_def)

lemma incr_all_append: "incr_all idx (xs @ ys) s = incr_all idx ys (incr_all idx xs s)"
  by (simp add: incr_all_def)

lemma foldE_arr_set:
  "foldE (\<lambda>a s. arr_set s (idx a) 1) as s
     = (if \<forall>a\<in>set as. idx a < length s then Inr (set_all idx as s) else Inl Fault)"
proof (induction as arbitrary: s)
  case Nil
  then show ?case by (simp add: set_all_def)
next
  case (Cons a as)
  show ?case
  proof (cases "idx a < length s")
    case True
    then show ?thesis using Cons [of "s[idx a := 1]"] by (simp add: arr_set_def set_all_def)
  next
    case False
    then show ?thesis by (simp add: arr_set_def)
  qed
qed

lemma foldE_arr_incr:
  "foldE (\<lambda>a s. arr_incr s (idx a)) as s
     = (if \<forall>a\<in>set as. idx a < length s then Inr (incr_all idx as s) else Inl Fault)"
proof (induction as arbitrary: s)
  case Nil
  then show ?case by (simp add: incr_all_def)
next
  case (Cons a as)
  show ?case
  proof (cases "idx a < length s")
    case True
    then show ?thesis
      using Cons [of "s[idx a := s ! idx a + 1]"] by (simp add: arr_incr_def incr_all_def)
  next
    case False
    then show ?thesis by (simp add: arr_incr_def)
  qed
qed

lemma set_all_nth:
  "k < length s \<Longrightarrow> set_all idx as s ! k = (if k \<in> idx ` set as then 1 else s ! k)"
proof (induction as arbitrary: s)
  case Nil
  then show ?case by (simp add: set_all_def)
next
  case (Cons a as)
  have "set_all idx (a # as) s = set_all idx as (s[idx a := 1])" by (simp add: set_all_def)
  then show ?case using Cons(1) [of "s[idx a := 1]"] Cons(2)
    by (auto simp: nth_list_update)
qed

lemma incr_all_nth:
  "k < length s \<Longrightarrow> incr_all idx as s ! k = s ! k + of_nat (count_list (map idx as) k)"
proof (induction as arbitrary: s)
  case Nil
  then show ?case by (simp add: incr_all_def)
next
  case (Cons a as)
  have "incr_all idx (a # as) s = incr_all idx as (s[idx a := s ! idx a + 1])"
    by (simp add: incr_all_def)
  then show ?case using Cons(1) [of "s[idx a := s ! idx a + 1]"] Cons(2)
    by (auto simp: nth_list_update)
qed

text \<open>A loop over inodes whose body runs a loop over the addresses of the inodes in use.\<close>

lemma foldE_concat_set:
  assumes "\<And>i s. i \<in> set is \<Longrightarrow> f i s =
       (if p i then (if \<forall>a\<in>set (xs i). idx a < length s then Inr (set_all idx (xs i) s)
                     else Inl Fault)
        else Inr s)"
  shows "foldE f is s =
       (if \<forall>a\<in>set (concat (map xs (filter p is))). idx a < length s
        then Inr (set_all idx (concat (map xs (filter p is))) s) else Inl Fault)"
  using assms
proof (induction "is" arbitrary: s)
  case Nil
  then show ?case by (simp add: set_all_def)
next
  case (Cons i "is")
  have step: "f i s = (if p i then (if \<forall>a\<in>set (xs i). idx a < length s
        then Inr (set_all idx (xs i) s) else Inl Fault) else Inr s)"
    using Cons(2) by simp
  have ih: "\<And>s. foldE f is s =
       (if \<forall>a\<in>set (concat (map xs (filter p is))). idx a < length s
        then Inr (set_all idx (concat (map xs (filter p is))) s) else Inl Fault)"
    using Cons by simp
  show ?case
    by (auto simp: step ih set_all_append)
qed

lemma get_used_dbs_eq:
  assumes r: "inode_readable img inode"
    and b: "addr_of (dinode_addrs img inode NDIRECT) = 0
            \<or> block_readable img (addr_of (dinode_addrs img inode NDIRECT))"
  shows "get_used_dbs img inode u =
       (if \<forall>a\<in>set (used_addrs img inode). db_index img a < length u
        then Inr (set_all (db_index img) (used_addrs img inode) u) else Inl Fault)"
proof -
  let ?slot = "addr_of (dinode_addrs img inode NDIRECT)"
  let ?inner = "\<lambda>blockaddr. foldE (\<lambda>j used.
                  bindE (indirect_entry img blockaddr j) (\<lambda>a.
                    if a = 0 then Inr used
                    else arr_set used (db_index img a) 1))
                  [0..<NINDIRECT]"
  let ?f = "\<lambda>i used.
       bindE (dinode_addrs img inode i) (\<lambda>blockaddr.
         if blockaddr = 0 then Inr used
         else bindE (arr_set used (db_index img blockaddr) 1) (\<lambda>used.
           if i = NDIRECT
           then ?inner blockaddr used
           else Inr used))"
  let ?g = "\<lambda>i used.
       bindE (dinode_addrs img inode i) (\<lambda>blockaddr.
         if blockaddr = 0 then Inr used
         else arr_set used (db_index img blockaddr) 1)"
  have split: "[0..<NDIRECT + 1] = [0..<NDIRECT] @ [NDIRECT]" by simp
  have "foldE ?f [0..<NDIRECT] u = foldE ?g [0..<NDIRECT] u"
    by (rule foldE_cong) (auto simp: bindE_def split: sum.splits)
  also have "\<dots> = foldE (\<lambda>a s. arr_set s (db_index img a) 1) (direct_addrs img inode) u"
    unfolding direct_addrs_def
    by (rule foldE_reads) (use dinode_addrs_readable [OF r] in auto)
  finally have d: "foldE ?f [0..<NDIRECT] u =
       (if \<forall>a\<in>set (direct_addrs img inode). db_index img a < length u
        then Inr (set_all (db_index img) (direct_addrs img inode) u) else Inl Fault)"
    by (simp only: foldE_arr_set)
  obtain a where a: "dinode_addrs img inode NDIRECT = Inr a"
    using dinode_addrs_readable [OF r, of NDIRECT] by auto
  have sa: "?slot = a" by (simp add: a addr_of_def)
  have inner: "?inner a s =
       (if \<forall>a\<in>set (block_entries img a). db_index img a < length s
        then Inr (set_all (db_index img) (block_entries img a) s) else Inl Fault)"
    if "a \<noteq> 0" for s
  proof -
    have rb: "block_readable img a" using b sa that by simp
    have "?inner a s = foldE (\<lambda>a s. arr_set s (db_index img a) 1) (block_entries img a) s"
      unfolding block_entries_def
      by (rule foldE_reads) (use indirect_entry_readable [OF rb] in auto)
    then show ?thesis by (simp only: foldE_arr_set)
  qed
  have last: "?f NDIRECT s =
       (if \<forall>a\<in>set (indirect_addrs img inode). db_index img a < length s
        then Inr (set_all (db_index img) (indirect_addrs img inode) s) else Inl Fault)" for s
  proof (cases "a = 0")
    case True
    then show ?thesis by (simp add: a indirect_addrs_def addr_of_def set_all_def)
  next
    case False
    have c: "set_all (db_index img) (a # block_entries img a) s
        = set_all (db_index img) (block_entries img a) (s[db_index img a := 1])"
      by (simp add: set_all_def)
    show ?thesis using False
      by (auto simp: a indirect_addrs_def addr_of_def arr_set_def inner c)
  qed
  have "get_used_dbs img inode u = bindE (foldE ?f [0..<NDIRECT] u) (\<lambda>s. ?f NDIRECT s)"
    unfolding get_used_dbs_def split foldE_append by (simp add: bindE_def split: sum.splits)
  then show ?thesis
    by (auto simp: d last used_addrs_def set_all_append)
qed


lemma dinode_type_readable:
  "inode_readable img inode \<Longrightarrow> \<exists>t. dinode_type img inode = Inr t"
  unfolding inode_readable_def dinode_type_def
  by (intro rd16_Inr) (simp add: DINODE_SIZE_def)

lemma fill_duaddrs_eq:
  assumes r: "inode_readable img inode"
  shows "fill_duaddrs img inode du =
       (if \<forall>a\<in>set (direct_addrs img inode). db_index img a < length du
        then Inr (incr_all (db_index img) (direct_addrs img inode) du) else Inl Fault)"
proof -
  have "fill_duaddrs img inode du
      = foldE (\<lambda>a s. arr_incr s (db_index img a)) (direct_addrs img inode) du"
    unfolding fill_duaddrs_def direct_addrs_def
    by (rule foldE_reads) (use dinode_addrs_readable [OF r] in auto)
  then show ?thesis by (simp only: foldE_arr_incr)
qed

lemma inodes_readableD:
  "inodes_readable img \<Longrightarrow> i < unat (sb_ninodes (sb img)) \<Longrightarrow> inode_readable img (inode_ptr img i)"
  by (simp add: inodes_readable_def list_all_iff)

lemma indirect_readableD:
  "indirect_readable img \<Longrightarrow> i \<in> set (inodes_in_use img) \<Longrightarrow>
     addr_of (dinode_addrs img (inode_ptr img i) NDIRECT) = 0
     \<or> block_readable img (addr_of (dinode_addrs img (inode_ptr img i) NDIRECT))"
  by (simp add: indirect_readable_def list_all_iff)

lemma mark_used_dbs_eq:
  assumes r: "inodes_readable img" and b: "indirect_readable img"
  shows "mark_used_dbs img =
       (if \<forall>a\<in>set (all_used_addrs img). db_index img a < unat (sb_nblocks (sb img))
        then Inr (set_all (db_index img) (all_used_addrs img)
                (replicate (unat (sb_nblocks (sb img))) 0))
        else Inl Fault)"
proof -
  let ?n = "unat (sb_ninodes (sb img))"
  let ?f = "\<lambda>i used.
       bindE (dinode_type img (inode_ptr img i)) (\<lambda>t.
         if t = 0 then Inr used else get_used_dbs img (inode_ptr img i) used)"
  have step: "?f i s =
       (if inode_in_use img i
        then (if \<forall>a\<in>set (used_addrs img (inode_ptr img i)). db_index img a < length s
              then Inr (set_all (db_index img) (used_addrs img (inode_ptr img i)) s)
              else Inl Fault)
        else Inr s)" if i: "i \<in> set [0..<?n]" for i s
  proof -
    have ri: "inode_readable img (inode_ptr img i)" using inodes_readableD [OF r] i by simp
    obtain t where t: "dinode_type img (inode_ptr img i) = Inr t"
      using dinode_type_readable [OF ri] by auto
    show ?thesis
    proof (cases "t = 0")
      case True
      then show ?thesis by (simp add: t inode_in_use_def)
    next
      case False
      then have u: "inode_in_use img i" by (simp add: t inode_in_use_def)
      then have "i \<in> set (inodes_in_use img)" using i by (simp add: inodes_in_use_def)
      then show ?thesis
        using get_used_dbs_eq [OF ri indirect_readableD [OF b]] False u by (simp add: t)
    qed
  qed
  show ?thesis
    unfolding mark_used_dbs_def all_used_addrs_def inodes_in_use_def
    using foldE_concat_set [of "[0..<?n]" ?f "inode_in_use img"
        "\<lambda>i. used_addrs img (inode_ptr img i)" "db_index img"
        "replicate (unat (sb_nblocks (sb img))) 0", OF step]
    by simp
qed

lemma db_index_eq:
  assumes "i < 2 ^ 32"
  shows "db_index img a = i \<longleftrightarrow> a = of_nat i + firstdatablock img"
proof -
  have "unat (a - firstdatablock img) = i \<longleftrightarrow> a - firstdatablock img = of_nat i"
    using assms by (simp add: word_unat_eq_iff [of "a - firstdatablock img" "of_nat i"] unat_of_nat)
  then show ?thesis by (auto simp: db_index_def algebra_simps)
qed

lemma db_index_region:
  assumes "unat (firstdatablock img) + unat (sb_nblocks (sb img)) \<le> 2 ^ 32"
  shows "db_index img a < unat (sb_nblocks (sb img)) \<longleftrightarrow> in_data_region img a"
proof -
  have s: "size a = 32" by (simp add: word_size)
  show ?thesis
    using assms unsigned_less [of a, where 'a = nat]
    by (auto simp: db_index_def in_data_region_def unat_sub_if_size s)
qed

section \<open>Rule 6 on the data blocks\<close>

lemma bitmap_readableD:
  "bitmap_readable img \<Longrightarrow> i < unat (sb_nblocks (sb img))
     \<Longrightarrow> \<exists>b. BITSET img (of_nat i + firstdatablock img) = Inr b"
proof -
  assume "bitmap_readable img" and "i < unat (sb_nblocks (sb img))"
  then have "case BITSET img (of_nat i + firstdatablock img) of Inl e \<Rightarrow> False | Inr b \<Rightarrow> True"
    by (simp add: bitmap_readable_def list_all_iff)
  then show ?thesis by (cases "BITSET img (of_nat i + firstdatablock img)") auto
qed

lemma bitmap_check_eq:
  assumes u: "mark_used_dbs img = Inr used"
    and r: "inodes_readable img" and b: "indirect_readable img" and m: "bitmap_readable img"
  shows "bitmap_check img =
       (if list_ex (marked_unused img) [0..<unat (sb_nblocks (sb img))]
        then Inl (Exit1 BitmapMarksUnused) else Inr ())"
proof -
  let ?n = "unat (sb_nblocks (sb img))"
  let ?f = "\<lambda>i. if used ! i = 0
         then bindE (BITSET img (of_nat i + firstdatablock img)) (\<lambda>b.
                if b then Inl (Exit1 BitmapMarksUnused) else Inr ())
         else Inr ()"
  have e: "used = set_all (db_index img) (all_used_addrs img) (replicate ?n 0)"
    using u by (simp add: mark_used_dbs_eq [OF r b] split: if_splits)
  have z: "used ! i = 0 \<longleftrightarrow> \<not> block_referenced img (of_nat i + firstdatablock img)"
    if i: "i < ?n" for i
  proof -
    have lt: "i < 2 ^ 32"
      using i unsigned_less [of "sb_nblocks (sb img)", where 'a = nat] by simp
    have "i \<in> db_index img ` set (all_used_addrs img)
        \<longleftrightarrow> (\<exists>x\<in>set (all_used_addrs img). db_index img x = i)"
      by auto
    also have "\<dots> \<longleftrightarrow> (\<exists>x\<in>set (all_used_addrs img). x = of_nat i + firstdatablock img)"
      by (simp only: db_index_eq [OF lt])
    also have "\<dots> \<longleftrightarrow> of_nat i + firstdatablock img \<in> set (all_used_addrs img)"
      by auto
    finally show ?thesis using i by (simp add: e set_all_nth block_referenced_def)
  qed
  have v: "?f i = (if marked_unused img i then Inl (Exit1 BitmapMarksUnused) else Inr ())"
    if i: "i < ?n" for i
    using bitmap_readableD [OF m i] z [OF i] by (auto simp: marked_unused_def)
  have "for_each [0..<?n] ?f
      = (if list_ex (\<lambda>i. ?f i = Inl (Exit1 BitmapMarksUnused)) [0..<?n]
         then Inl (Exit1 BitmapMarksUnused) else Inr ())"
    by (rule for_each_two_valued) (simp add: v)
  moreover have "list_ex (\<lambda>i. ?f i = Inl (Exit1 BitmapMarksUnused)) [0..<?n]
      = list_ex (marked_unused img) [0..<?n]"
    by (auto simp: list_ex_iff v)
  ultimately show ?thesis by (simp add: bitmap_check_def u)
qed

lemma fcheck_bitmap_check_Inl:
  assumes "read_superblock m = Inr s" and "inode_check (layout s m) = Inr ()"
    and "bitmap_check (layout s m) = Inl e"
  shows "fcheck fuel m = Some (Inl e)"
  using assms by (simp add: fcheck_def Let_def)

text \<open>
  C3, as the code has it. Let the inode checks pass, let the first loop of
  \<^verbatim>\<open>bitmap_check\<close> stay inside its array, and let the inode table, the indirect blocks in
  use and the bitmap bytes of the data blocks lie inside the mapped image. Then
  \<^verbatim>\<open>bitmap_check\<close> reports rule 6 exactly when one of the \<open>nblocks\<close> blocks from the first
  data block on is marked in the bitmap and reached by no inode in use, and the checker
  then prints the line of rule 6 and exits with status 1. The blocks below the first data
  block are not looked at.
\<close>

theorem unused_data_block_reported:
  assumes "read_superblock m = Inr s"
    and "inode_check (layout s m) = Inr ()"
    and "mark_used_dbs (layout s m) = Inr used"
    and "inodes_readable (layout s m)"
    and "indirect_readable (layout s m)"
    and "bitmap_readable (layout s m)"
  shows "bitmap_check (layout s m) =
           (if list_ex (marked_unused (layout s m)) [0..<unat (sb_nblocks s)]
            then Inl (Exit1 BitmapMarksUnused) else Inr ())
       \<and> (list_ex (marked_unused (layout s m)) [0..<unat (sb_nblocks s)]
            \<longrightarrow> fcheck fuel m = Some (Inl (Exit1 BitmapMarksUnused)))"
proof -
  have e: "bitmap_check (layout s m) =
           (if list_ex (marked_unused (layout s m)) [0..<unat (sb_nblocks s)]
            then Inl (Exit1 BitmapMarksUnused) else Inr ())"
    using bitmap_check_eq [OF assms(3,4,5,6)] by simp
  show ?thesis using e fcheck_bitmap_check_Inl [OF assms(1,2)] by auto
qed

lemma spare_layout:
  "layout spare_sb m = \<lparr>numinodeblocks = 1, numbitmapblocks = 1, firstdatablock = 4,
     sb = spare_sb, inodeblocks = 1024, bitmapblocks = 1536, datablocks = 2048, mmapimage = m\<rparr>"
  by (simp add: spare_sb_def layout_def fs_consts Let_def)

lemma spare_sb_sel: "sb_size spare_sb = 6" "sb_nblocks spare_sb = 2" "sb_ninodes spare_sb = 2"
  by (simp_all add: spare_sb_def)

lemma read_sb_spare: "read_superblock spare_block_image = Inr spare_sb"
  by (simp add: read_superblock_def spare_block_image_def spare_sb_def rd32_def BLOCK_SIZE_def
      BSIZE_def)

lemma spare_inode: "inode_check (layout spare_sb spare_block_image) = Inr ()"
  by (simp add: spare_layout spare_sb_sel inode_checks fs_consts accessors loops
      spare_block_image_def)

lemma spare_mark:
  "mark_used_dbs (layout spare_sb spare_block_image) = Inr ((replicate 2 0)[0 := 1])"
  by (simp add: spare_layout spare_sb_sel bitmap_checks fs_consts accessors loops
      spare_block_image_def)

lemma spare_readable:
  "inodes_readable (layout spare_sb spare_block_image)"
  "indirect_readable (layout spare_sb spare_block_image)"
  "bitmap_readable (layout spare_sb spare_block_image)"
  by (simp_all add: spare_layout spare_sb_sel spec_preds fs_consts accessors loops
      spare_block_image_def)

lemma spare_marked_unused: "marked_unused (layout spare_sb spare_block_image) 1"
  by (simp add: marked_unused_def spare_layout spare_sb_sel spec_preds fs_consts accessors loops
      spare_block_image_def)

theorem unused_data_block_reported_witness:
  "marked_unused (layout spare_sb spare_block_image) 1
   \<and> fcheck (Suc 0) spare_block_image = Some (Inl (Exit1 BitmapMarksUnused))"
proof -
  have "list_ex (marked_unused (layout spare_sb spare_block_image)) [0..<unat (sb_nblocks spare_sb)]"
    unfolding list_ex_iff
  proof (rule bexI)
    show "marked_unused (layout spare_sb spare_block_image) 1" by (rule spare_marked_unused)
    show "1 \<in> set [0..<unat (sb_nblocks spare_sb)]" by (simp add: spare_sb_sel)
  qed
  then show ?thesis
    using unused_data_block_reported [OF read_sb_spare spare_inode spare_mark spare_readable,
        of "Suc 0"] spare_marked_unused
    by blast
qed

section \<open>The bounds of the counter arrays\<close>

lemma inodes_in_use_less:
  "i \<in> set (inodes_in_use img) \<Longrightarrow> i < unat (sb_ninodes (sb img))"
  by (simp add: inodes_in_use_def)

lemma low_used: "2 \<in> set (all_used_addrs (layout small_sb low_addr_image))"
  by (simp add: small_layout small_sb_sel spec_preds fs_consts accessors loops images)

lemma low_read_sb: "read_superblock low_addr_image = Inr small_sb"
  by (rule read_sb_images)

lemma low_fdb: "firstdatablock (layout small_sb low_addr_image) = 4"
  by (simp add: small_layout)

lemma low_readable:
  "inodes_readable (layout small_sb low_addr_image)"
  "indirect_readable (layout small_sb low_addr_image)"
  by (simp_all add: small_layout small_sb_sel spec_preds fs_consts accessors loops images)

text \<open>
  C10. Let the inode table and the indirect blocks in use lie inside the mapped image,
  and let the first data block plus \<open>nblocks\<close> not exceed \<open>2 ^ 32\<close>. The first loop of
  \<^verbatim>\<open>bitmap_check\<close> stays inside \<^verbatim>\<open>used_dbs\<close> exactly when every nonzero direct or
  indirect address of every inode in use is one of the \<open>nblocks\<close> blocks from the first
  data block on, and it is a fault otherwise; \<^verbatim>\<open>fill_duaddrs\<close> stays inside \<^verbatim>\<open>duaddrs\<close>
  for an inode in use exactly when its nonzero direct addresses are such blocks. The checks
  of \<^verbatim>\<open>inode_check\<close>, rule 2 among them, do not establish this: there is an image that
  passes them all with a nonzero address below the block count and below the first data
  block, for which the difference of the address and the first data block is negative, the
  index that C computes from it is not below \<open>nblocks\<close>, and \<^verbatim>\<open>bitmap_check\<close> writes outside
  its array.
\<close>

theorem counter_index_in_bounds:
  assumes r: "inodes_readable img" and b: "indirect_readable img"
    and w: "unat (firstdatablock img) + unat (sb_nblocks (sb img)) \<le> 2 ^ 32"
  shows "((\<exists>used. mark_used_dbs img = Inr used)
            \<longleftrightarrow> list_all (in_data_region img) (all_used_addrs img))
       \<and> (\<not> list_all (in_data_region img) (all_used_addrs img)
            \<longrightarrow> bitmap_check img = Inl Fault)
       \<and> (\<forall>i\<in>set (inodes_in_use img).
            (\<exists>du. fill_duaddrs img (inode_ptr img i)
                     (replicate (unat (sb_nblocks (sb img))) 0) = Inr du)
            \<longleftrightarrow> list_all (in_data_region img) (direct_addrs img (inode_ptr img i)))
       \<and> (\<exists>m s a. read_superblock m = Inr s \<and> inode_check (layout s m) = Inr ()
            \<and> a \<in> set (all_used_addrs (layout s m)) \<and> a \<noteq> 0 \<and> a < sb_size s
            \<and> unat a < unat (firstdatablock (layout s m))
            \<and> unat (sb_nblocks s) \<le> db_index (layout s m) a
            \<and> bitmap_check (layout s m) = Inl Fault)"
proof (intro conjI ballI impI)
  show m: "(\<exists>used. mark_used_dbs img = Inr used)
       \<longleftrightarrow> list_all (in_data_region img) (all_used_addrs img)"
    by (simp add: mark_used_dbs_eq [OF r b] db_index_region [OF w] list_all_iff)
  show "bitmap_check img = Inl Fault"
    if "\<not> list_all (in_data_region img) (all_used_addrs img)"
  proof -
    have "mark_used_dbs img = Inl Fault"
      using that by (auto simp: mark_used_dbs_eq [OF r b] db_index_region [OF w] list_all_iff)
    then show ?thesis by (simp add: bitmap_check_def)
  qed
  show "(\<exists>du. fill_duaddrs img (inode_ptr img i)
                     (replicate (unat (sb_nblocks (sb img))) 0) = Inr du)
            \<longleftrightarrow> list_all (in_data_region img) (direct_addrs img (inode_ptr img i))"
    if "i \<in> set (inodes_in_use img)" for i
    using inodes_readableD [OF r inodes_in_use_less [OF that]]
    by (simp add: fill_duaddrs_eq db_index_region [OF w] list_all_iff)
  show "\<exists>m s a. read_superblock m = Inr s \<and> inode_check (layout s m) = Inr ()
            \<and> a \<in> set (all_used_addrs (layout s m)) \<and> a \<noteq> 0 \<and> a < sb_size s
            \<and> unat a < unat (firstdatablock (layout s m))
            \<and> unat (sb_nblocks s) \<le> db_index (layout s m) a
            \<and> bitmap_check (layout s m) = Inl Fault"
  proof (intro exI conjI)
    show "read_superblock low_addr_image = Inr small_sb" by (rule low_read_sb)
    show "inode_check (layout small_sb low_addr_image) = Inr ()" by (rule low_inode)
    show "2 \<in> set (all_used_addrs (layout small_sb low_addr_image))" by (rule low_used)
    show "(2 :: u32) \<noteq> 0" by simp
    show "2 < sb_size small_sb" by (simp add: small_sb_sel)
    show "unat (2 :: u32) < unat (firstdatablock (layout small_sb low_addr_image))"
      by (simp add: low_fdb)
    show "unat (sb_nblocks small_sb) \<le> db_index (layout small_sb low_addr_image) 2"
      by (simp add: low_index small_sb_sel)
    show "bitmap_check (layout small_sb low_addr_image) = Inl Fault" by (rule low_bitmap)
  qed
qed

theorem counter_index_in_bounds_witness:
  "inodes_readable (layout small_sb low_addr_image)
   \<and> indirect_readable (layout small_sb low_addr_image)
   \<and> 2 \<in> set (all_used_addrs (layout small_sb low_addr_image))
   \<and> \<not> in_data_region (layout small_sb low_addr_image) 2
   \<and> bitmap_check (layout small_sb low_addr_image) = Inl Fault"
proof -
  let ?img = "layout small_sb low_addr_image"
  have w: "unat (firstdatablock ?img) + unat (sb_nblocks (sb ?img)) \<le> 2 ^ 32"
    by (simp add: small_layout small_sb_sel)
  have n: "\<not> in_data_region ?img 2"
    by (simp add: in_data_region_def small_layout small_sb_sel)
  then have "\<not> list_all (in_data_region ?img) (all_used_addrs ?img)"
    using low_used by (auto simp: list_all_iff)
  then have "bitmap_check ?img = Inl Fault"
    using counter_index_in_bounds [OF low_readable w] by blast
  then show ?thesis using low_readable low_used n by blast
qed

section \<open>Rule 7 on the direct slots\<close>

lemma foldE_prefix_inv:
  assumes "I pre s" and "foldE f is s = Inr s'"
    and "\<And>pre i s s'. I pre s \<Longrightarrow> i \<in> set is \<Longrightarrow> f i s = Inr s' \<Longrightarrow> I (pre @ [i]) s'"
  shows "I (pre @ is) s'"
  using assms
proof (induction "is" arbitrary: pre s)
  case Nil
  then show ?case by simp
next
  case (Cons i "is")
  from Cons.prems(2) obtain s1 where s1: "f i s = Inr s1" and r: "foldE f is s1 = Inr s'"
    by (auto simp: bindE_eq_Inr)
  have "I (pre @ [i]) s1" using Cons.prems(1,3) s1 by simp
  then have "I ((pre @ [i]) @ is) s'"
    using r Cons.prems(3) by (intro Cons.IH [of "pre @ [i]" s1]) simp_all
  then show ?case by simp
qed

lemma for_each_upt_Inl_iff:
  "for_each [0..<n] f = Inl e \<longleftrightarrow> (\<exists>i<n. f i = Inl e \<and> (\<forall>k<i. f k = Inr ()))"
proof
  assume "\<exists>i<n. f i = Inl e \<and> (\<forall>k<i. f k = Inr ())"
  then obtain i where i: "i < n" "f i = Inl e" "\<forall>k<i. f k = Inr ()" by auto
  show "for_each [0..<n] f = Inl e"
    using for_each_upt_first [of 0 i n f] i by simp
next
  assume "for_each [0..<n] f = Inl e"
  then show "\<exists>i<n. f i = Inl e \<and> (\<forall>k<i. f k = Inr ())"
  proof (induction n)
    case 0
    then show ?case by simp
  next
    case (Suc n)
    have a: "for_each [0..<Suc n] f = bindE (for_each [0..<n] f) (\<lambda>_. bindE (f n) (\<lambda>_. Inr ()))"
      by (simp add: for_each_append)
    show ?case
    proof (cases "for_each [0..<n] f")
      case (Inl e')
      then have "e' = e" using Suc.prems a by simp
      then obtain i where "i < n" "f i = Inl e" "\<forall>k<i. f k = Inr ()"
        using Suc.IH Inl by auto
      then show ?thesis by (auto intro: exI [of _ i])
    next
      case (Inr u)
      then have all: "\<forall>k<n. f k = Inr ()" using for_each_Inr [of "[0..<n]" f] by simp
      have "f n = Inl e" using Suc.prems a Inr by (cases "f n") simp_all
      then show ?thesis using all by (auto intro: exI [of _ n])
    qed
  qed
qed

lemma length_direct_addrs: "length (direct_addrs img inode) \<le> NDIRECT"
  unfolding direct_addrs_def
  by (rule order_trans [OF length_filter_le]) simp

lemma length_concat_le:
  "(\<And>x. x \<in> set xs \<Longrightarrow> length (f x) \<le> c) \<Longrightarrow> length (concat (map f xs)) \<le> length xs * c"
  by (induction xs) (auto simp: add_mono)

lemma length_all_direct_addrs:
  "length (all_direct_addrs img) \<le> unat (sb_ninodes (sb img)) * NDIRECT"
proof -
  have "length (all_direct_addrs img) \<le> length (inodes_in_use img) * NDIRECT"
    unfolding all_direct_addrs_def by (rule length_concat_le) (rule length_direct_addrs)
  moreover have "length (inodes_in_use img) \<le> unat (sb_ninodes (sb img))"
    unfolding inodes_in_use_def by (rule order_trans [OF length_filter_le]) simp
  ultimately show ?thesis
    using mult_le_mono1 [of "length (inodes_in_use img)" "unat (sb_ninodes (sb img))" NDIRECT]
    by linarith
qed

lemma count_list_map_db_index:
  assumes "i < 2 ^ 32"
  shows "count_list (map (db_index img) xs) i = count_list xs (of_nat i + firstdatablock img)"
  by (induction xs) (simp_all add: db_index_eq [OF assms])

lemma count_list_le_length: "count_list xs x \<le> length xs"
  by (induction xs) auto

lemma one_less_of_nat:
  assumes "c < 2 ^ 32"
  shows "1 < (of_nat c :: u32) \<longleftrightarrow> 1 < c"
  using assms by (simp add: word_less_nat_alt unat_of_nat)

lemma foldE_reads_Inr:
  assumes "foldE (\<lambda>i s. bindE (r i) (\<lambda>a. if a = 0 then Inr s else g a s)) is s = Inr s'"
  shows "foldE g (filter (\<lambda>a. a \<noteq> 0) (map (\<lambda>i. addr_of (r i)) is)) s = Inr s'"
  using assms
proof (induction "is" arbitrary: s)
  case Nil
  then show ?case by simp
next
  case (Cons i "is")
  from Cons.prems obtain s1 where
    s1: "bindE (r i) (\<lambda>a. if a = 0 then Inr s else g a s) = Inr s1"
    and rest: "foldE (\<lambda>i s. bindE (r i) (\<lambda>a. if a = 0 then Inr s else g a s)) is s1 = Inr s'"
    by (auto simp: bindE_eq_Inr)
  from s1 obtain a where a: "r i = Inr a" and g: "(if a = 0 then Inr s else g a s) = Inr s1"
    by (auto simp: bindE_eq_Inr)
  show ?case using Cons.IH [OF rest] g by (auto simp: a addr_of_def split: if_splits)
qed

lemma fill_duaddrs_Inr:
  assumes "fill_duaddrs img inode du = Inr du'"
  shows "du' = incr_all (db_index img) (direct_addrs img inode) du"
proof -
  have "foldE (\<lambda>a s. arr_incr s (db_index img a)) (direct_addrs img inode) du = Inr du'"
    using assms unfolding fill_duaddrs_def direct_addrs_def by (rule foldE_reads_Inr)
  then show ?thesis by (simp add: foldE_arr_incr split: if_splits)
qed

lemma count_addrs_direct:
  assumes c: "count_addrs img = Inr (du, iu)"
  shows "du = incr_all (db_index img) (all_direct_addrs img)
                (replicate (unat (sb_nblocks (sb img))) 0)"
proof -
  let ?n = "unat (sb_ninodes (sb img))"
  let ?init = "replicate (unat (sb_nblocks (sb img))) (0 :: u32)"
  let ?f = "\<lambda>i (du, iu).
       bindE (dinode_type img (inode_ptr img i)) (\<lambda>t.
         if t = 0 then Inr (du, iu)
         else bindE (fill_duaddrs img (inode_ptr img i) du) (\<lambda>du.
              bindE (fill_iuaddrs img (inode_ptr img i) iu) (\<lambda>iu.
              Inr (du, iu))))"
  let ?I = "\<lambda>pre s. fst s = incr_all (db_index img)
       (concat (map (\<lambda>i. direct_addrs img (inode_ptr img i)) (filter (inode_in_use img) pre)))
       ?init"
  have step: "?I (pre @ [i]) s'" if I: "?I pre s" and i: "i \<in> set [0..<?n]" and f: "?f i s = Inr s'"
    for pre i s s'
  proof -
    obtain d u where s: "s = (d, u)" by (cases s)
    obtain t where t: "dinode_type img (inode_ptr img i) = Inr t"
      using f by (auto simp: s bindE_eq_Inr)
    show ?thesis
    proof (cases "t = 0")
      case True
      then show ?thesis using I f by (auto simp: s t inode_in_use_def)
    next
      case False
      then have u: "inode_in_use img i" by (simp add: t inode_in_use_def)
      from f False obtain d1 where d1: "fill_duaddrs img (inode_ptr img i) d = Inr d1"
        and s': "fst s' = d1"
        by (auto simp: s t bindE_eq_Inr)
      have "d1 = incr_all (db_index img) (direct_addrs img (inode_ptr img i)) d"
        using d1 by (rule fill_duaddrs_Inr)
      then show ?thesis using I u s' by (simp add: s incr_all_append)
    qed
  qed
  have "?I ([] @ [0..<?n]) (du, iu)"
  proof (rule foldE_prefix_inv [where I = ?I and f = ?f and s = "(?init, ?init)"])
    show "?I [] (?init, ?init)" by (simp add: incr_all_def)
    show "foldE ?f [0..<?n] (?init, ?init) = Inr (du, iu)"
      using c by (simp add: count_addrs_def)
    show "\<And>pre i s s'. ?I pre s \<Longrightarrow> i \<in> set [0..<?n] \<Longrightarrow> ?f i s = Inr s'
        \<Longrightarrow> ?I (pre @ [i]) s'"
      by (rule step)
  qed
  then show ?thesis by (simp add: all_direct_addrs_def inodes_in_use_def)
qed

lemma duaddrs_nth:
  assumes c: "count_addrs img = Inr (du, iu)"
    and o: "unat (sb_ninodes (sb img)) * NDIRECT < 2 ^ 32"
    and i: "i < unat (sb_nblocks (sb img))"
  shows "1 < du ! i \<longleftrightarrow> 1 < direct_uses img (of_nat i + firstdatablock img)"
proof -
  have lt: "i < 2 ^ 32"
    using i unsigned_less [of "sb_nblocks (sb img)", where 'a = nat] by simp
  have "du ! i = of_nat (count_list (map (db_index img) (all_direct_addrs img)) i)"
    using i by (simp add: count_addrs_direct [OF c] incr_all_nth)
  then have d: "du ! i = of_nat (direct_uses img (of_nat i + firstdatablock img))"
    by (simp add: count_list_map_db_index [OF lt] direct_uses_def)
  have "direct_uses img (of_nat i + firstdatablock img) \<le> length (all_direct_addrs img)"
    unfolding direct_uses_def by (rule count_list_le_length)
  then have "direct_uses img (of_nat i + firstdatablock img) < 2 ^ 32"
    using length_all_direct_addrs [of img] o by linarith
  then show ?thesis by (simp add: d one_less_of_nat)
qed


text \<open>The violations that each check can print.\<close>

lemma rd_faults:
  "rd8 m a = Inl e \<Longrightarrow> e = Fault"
  "rd16 m a = Inl e \<Longrightarrow> e = Fault"
  "rd32 m a = Inl e \<Longrightarrow> e = Fault"
  by (auto simp: rd8_def rd16_def rd32_def split: if_splits)

lemma streq_fault: "streq m a lit = Inl e \<Longrightarrow> e = Fault"
  by (induction lit arbitrary: a) (auto simp: bindE_eq_Inl dest: rd_faults split: if_splits)

lemma accessor_faults:
  "dinode_type img inode = Inl e \<Longrightarrow> e = Fault"
  "dinode_nlink img inode = Inl e \<Longrightarrow> e = Fault"
  "dinode_addrs img inode i = Inl e \<Longrightarrow> e = Fault"
  "indirect_entry img b j = Inl e \<Longrightarrow> e = Fault"
  "dirent_inum img de = Inl e \<Longrightarrow> e = Fault"
  "dirent_name_is img de lit = Inl e \<Longrightarrow> e = Fault"
  "arr_incr xs k = Inl e \<Longrightarrow> e = Fault"
  by (auto simp: dinode_type_def dinode_nlink_def dinode_addrs_def indirect_entry_def
      dirent_inum_def dirent_name_is_def arr_incr_def dest: rd_faults streq_fault split: if_splits)

lemma foldP_error:
  assumes "foldP f xs s = Some (Inl e)"
    and "\<And>x s e. x \<in> set xs \<Longrightarrow> f x s = Some (Inl e) \<Longrightarrow> P e"
  shows "P e"
  using assms
proof (induction xs arbitrary: s)
  case Nil
  then show ?case by simp
next
  case (Cons x xs)
  from Cons.prems(1) obtain q where q: "f x s = Some q" by (auto split: option.splits)
  show ?case
  proof (cases q)
    case (Inl e')
    then have "e' = e" using Cons.prems(1) by (simp add: q)
    then show ?thesis using Cons.prems(2) [of x s e] q Inl by simp
  next
    case (Inr s1)
    then have f1: "foldP f xs s1 = Some (Inl e)" using Cons.prems(1) by (simp add: q)
    have step: "\<And>y s e. y \<in> set xs \<Longrightarrow> f y s = Some (Inl e) \<Longrightarrow> P e"
      using Cons.prems(2) by (meson list.set_intros(2))
    show ?thesis by (rule Cons.IH [OF f1 step])
  qed
qed

lemma traverse_entry_fault:
  assumes "traverse_entry rec img de m = Some (Inl e)"
    and "\<And>i m e. rec i m = Some (Inl e) \<Longrightarrow> e = Fault"
  shows "e = Fault"
  using assms
  by (auto simp: traverse_entry_def split: sum.splits if_splits dest: accessor_faults)

lemma traverse_block_fault:
  assumes "traverse_block rec img a m = Some (Inl e)"
    and "\<And>i m e. rec i m = Some (Inl e) \<Longrightarrow> e = Fault"
  shows "e = Fault"
  using assms(1) unfolding traverse_block_def
  by (rule foldP_error) (rule traverse_entry_fault, assumption, rule assms(2))

lemma traverse_body_fault:
  assumes "traverse_body rec img i m = Some (Inl e)"
    and r: "\<And>i m e. rec i m = Some (Inl e) \<Longrightarrow> e = Fault"
  shows "e = Fault"
proof -
  let ?ip = "inode_ptr img i"
  let ?d = "\<lambda>i m.
              case dinode_addrs img ?ip i of Inl e \<Rightarrow> Some (Inl e) | Inr blockaddr \<Rightarrow>
              if blockaddr = 0 then Some (Inr m) else traverse_block rec img blockaddr m"
  let ?e = "\<lambda>blockaddr i m.
              case indirect_entry img blockaddr i of Inl e \<Rightarrow> Some (Inl e) | Inr a \<Rightarrow>
              if a = 0 then Some (Inr m) else traverse_block rec img a m"
  have d: "e = Fault" if "foldP ?d xs s = Some (Inl e)" for xs s e
    using that
    by (rule foldP_error)
      (auto split: sum.splits if_splits dest: accessor_faults traverse_block_fault [OF _ r])
  have e: "e = Fault" if "foldP (?e b) xs s = Some (Inl e)" for xs s e b
    using that
    by (rule foldP_error)
      (auto split: sum.splits if_splits dest: accessor_faults traverse_block_fault [OF _ r])
  show ?thesis
    using assms(1) unfolding traverse_body_def Let_def
    by (auto split: sum.splits if_splits option.splits dest: accessor_faults d e)
qed

lemma traverse_dirs_fault:
  "traverse_dirs fuel img i m = Some (Inl e) \<Longrightarrow> e = Fault"
proof (induction fuel arbitrary: i m e)
  case 0
  then show ?case by simp
next
  case (Suc fuel)
  have "traverse_body (traverse_dirs fuel img) img i m = Some (Inl e)" using Suc.prems by simp
  then show ?case by (rule traverse_body_fault) (rule Suc.IH)
qed

lemma for_each_error:
  "for_each is f = Inl e \<Longrightarrow> \<exists>i\<in>set is. f i = Inl e"
  by (induction "is") (auto simp: bindE_eq_Inl)

lemma directory_rules_error:
  assumes "directory_rules img inodemap = Inl e"
  shows "e \<in> {Fault, Exit1 InodeNotInDir, Exit1 InodeReferredFree, Exit1 BadRefCount,
              Exit1 DirTwice}"
proof -
  obtain i where "bindE (dinode_type img (inode_ptr img i)) (\<lambda>t.
         if t \<noteq> 0 \<and> inodemap ! i = 0 then Inl (Exit1 InodeNotInDir)
         else if 0 < sint (inodemap ! i) \<and> t = 0 then Inl (Exit1 InodeReferredFree)
         else bindE (if t = T_FILE
                     then bindE (dinode_nlink img (inode_ptr img i)) (\<lambda>nlink.
                            if sint nlink \<noteq> sint (inodemap ! i)
                            then Inl (Exit1 BadRefCount) else Inr ())
                     else Inr ()) (\<lambda>_.
           if t = T_DIR \<and> 1 < sint (inodemap ! i) then Inl (Exit1 DirTwice) else Inr ())) = Inl e"
    using for_each_error [OF assms [unfolded directory_rules_def]] by auto
  then show ?thesis
    by (auto simp: bindE_eq_Inl split: if_splits dest: accessor_faults)
qed

lemma directory_check_error:
  assumes "directory_check fuel img = Some (Inl e)"
  shows "e \<in> {Fault, Exit1 InodeNotInDir, Exit1 InodeReferredFree, Exit1 BadRefCount,
              Exit1 DirTwice}"
  using assms
  by (auto simp: directory_check_def bindE_eq_Inl split: sum.splits option.splits
      dest: accessor_faults traverse_dirs_fault directory_rules_error)

lemma blockaddrs_check_error:
  assumes "blockaddrs_check img = Inl e"
  shows "(\<exists>du iu. count_addrs img = Inr (du, iu)) \<and> e \<in> {Exit1 DirectTwice, Exit1 IndirectTwice}
         \<or> count_addrs img = Inl e"
proof (cases "count_addrs img")
  case (Inl x)
  then show ?thesis using assms by (simp add: blockaddrs_check_def)
next
  case (Inr p)
  obtain du iu where p: "p = (du, iu)" by (cases p)
  have "for_each [0..<unat (sb_nblocks (sb img))] (\<lambda>i.
         if 1 < du ! i then Inl (Exit1 DirectTwice)
         else if 1 < iu ! i then Inl (Exit1 IndirectTwice)
         else Inr ()) = Inl e"
    using assms by (simp add: blockaddrs_check_def Inr p)
  from for_each_error [OF this] show ?thesis
    by (auto simp: Inr p split: if_splits)
qed

lemma fcheck_direct_twice_iff:
  assumes "read_superblock m = Inr s" and "inode_check (layout s m) = Inr ()"
    and "bitmap_check (layout s m) = Inr ()"
  shows "fcheck fuel m = Some (Inl (Exit1 DirectTwice))
     \<longleftrightarrow> blockaddrs_check (layout s m) = Inl (Exit1 DirectTwice)"
proof (cases "blockaddrs_check (layout s m)")
  case (Inl e)
  then show ?thesis using assms by (simp add: fcheck_def Let_def)
next
  case (Inr u)
  then have "fcheck fuel m = directory_check fuel (layout s m)"
    using assms by (simp add: fcheck_def Let_def)
  then show ?thesis using Inr directory_check_error [of fuel "layout s m" "Exit1 DirectTwice"]
    by auto
qed

lemma fcheck_blockaddrs_check_Inl:
  assumes "read_superblock m = Inr s" and "inode_check (layout s m) = Inr ()"
    and "bitmap_check (layout s m) = Inr ()" and "blockaddrs_check (layout s m) = Inl e"
  shows "fcheck fuel m = Some (Inl e)"
  using assms by (simp add: fcheck_def Let_def)

lemma blockaddrs_check_direct_iff:
  assumes c: "count_addrs img = Inr (du, iu)"
    and o: "unat (sb_ninodes (sb img)) * NDIRECT < 2 ^ 32"
  shows "blockaddrs_check img = Inl (Exit1 DirectTwice) \<longleftrightarrow>
     (\<exists>i<unat (sb_nblocks (sb img)).
        1 < direct_uses img (of_nat i + firstdatablock img)
        \<and> (\<forall>k<i. direct_uses img (of_nat k + firstdatablock img) \<le> 1 \<and> iu ! k \<le> 1))"
proof -
  let ?n = "unat (sb_nblocks (sb img))"
  let ?f = "\<lambda>i. if 1 < du ! i then Inl (Exit1 DirectTwice)
         else if 1 < iu ! i then Inl (Exit1 IndirectTwice)
         else Inr ()"
  have b: "blockaddrs_check img = for_each [0..<?n] ?f"
    by (simp add: blockaddrs_check_def c)
  have d: "?f i = Inl (Exit1 DirectTwice)
      \<longleftrightarrow> 1 < direct_uses img (of_nat i + firstdatablock img)" if "i < ?n" for i
    using duaddrs_nth [OF c o that] by simp
  have p: "?f k = Inr ()
      \<longleftrightarrow> direct_uses img (of_nat k + firstdatablock img) \<le> 1 \<and> iu ! k \<le> 1" if "k < ?n" for k
    using duaddrs_nth [OF c o that] by (auto simp: not_less)
  have "for_each [0..<?n] ?f = Inl (Exit1 DirectTwice)
      \<longleftrightarrow> (\<exists>i<?n. ?f i = Inl (Exit1 DirectTwice) \<and> (\<forall>k<i. ?f k = Inr ()))"
    by (rule for_each_upt_Inl_iff)
  also have "\<dots> \<longleftrightarrow> (\<exists>i<?n. 1 < direct_uses img (of_nat i + firstdatablock img)
        \<and> (\<forall>k<i. direct_uses img (of_nat k + firstdatablock img) \<le> 1 \<and> iu ! k \<le> 1))"
  proof (intro ex_cong1 conj_cong refl)
    fix i
    assume i: "i < ?n"
    show "?f i = Inl (Exit1 DirectTwice)
        \<longleftrightarrow> 1 < direct_uses img (of_nat i + firstdatablock img)"
      by (rule d [OF i])
    show "(\<forall>k<i. ?f k = Inr ())
        \<longleftrightarrow> (\<forall>k<i. direct_uses img (of_nat k + firstdatablock img) \<le> 1 \<and> iu ! k \<le> 1)"
      using p i by (meson less_trans)
  qed
  finally show ?thesis by (simp only: b)
qed

text \<open>
  C6, as the code has it. Let the inode checks and the bitmap check pass, let the counting
  loop of \<^verbatim>\<open>blockaddrs_check\<close> return its two arrays, having stayed inside them and inside
  the mapped image, and let the number of direct slots of the inode table be below
  \<open>2 ^ 32\<close>. The count of a block in \<^verbatim>\<open>duaddrs\<close> is \<open>direct_uses\<close>, the number of direct
  slots of inodes in use that hold the block: two slots of one inode count as two. The
  checker prints the line of rule 7 and exits with status 1 exactly when some data block
  has a count above one in \<^verbatim>\<open>duaddrs\<close> and no data block before it has a count above one
  in \<^verbatim>\<open>duaddrs\<close> or in \<^verbatim>\<open>iuaddrs\<close>, whatever depth is allowed to the walk of the
  directories.
\<close>

theorem direct_twice_reported:
  assumes "read_superblock m = Inr s"
    and "inode_check (layout s m) = Inr ()"
    and "bitmap_check (layout s m) = Inr ()"
    and "count_addrs (layout s m) = Inr (duaddrs, iuaddrs)"
    and "unat (sb_ninodes s) * NDIRECT < 2 ^ 32"
  shows "fcheck fuel m = Some (Inl (Exit1 DirectTwice)) \<longleftrightarrow>
           (\<exists>i<unat (sb_nblocks s).
              1 < direct_uses (layout s m) (of_nat i + firstdatablock (layout s m))
              \<and> (\<forall>k<i. direct_uses (layout s m) (of_nat k + firstdatablock (layout s m)) \<le> 1
                       \<and> iuaddrs ! k \<le> 1))"
  using blockaddrs_check_direct_iff [OF assms(4)] assms(5)
    fcheck_direct_twice_iff [OF assms(1,2,3), of fuel]
  by simp

lemma dup_count: "count_addrs (layout small_sb dup_slot_image) = Inr ([2], [0])"
  by (simp add: small_layout small_sb_sel blockaddrs_checks fs_consts accessors loops images)

lemma dup_readable: "inodes_readable (layout small_sb dup_slot_image)"
  by (simp add: small_layout small_sb_sel spec_preds fs_consts accessors loops images)

lemma dup_uses: "direct_uses (layout small_sb dup_slot_image) 4 = 2"
  by (simp add: small_layout small_sb_sel spec_preds fs_consts accessors loops images)

theorem direct_twice_reported_witness:
  "direct_uses (layout small_sb dup_slot_image) 4 = 2
   \<and> blockaddrs_check (layout small_sb dup_slot_image) = Inl (Exit1 DirectTwice)
   \<and> fcheck (Suc 0) dup_slot_image = Some (Inl (Exit1 DirectTwice))"
proof -
  let ?img = "layout small_sb dup_slot_image"
  have o: "unat (sb_ninodes small_sb) * NDIRECT < 2 ^ 32"
    by (simp add: small_sb_sel NDIRECT_def)
  have f: "of_nat 0 + firstdatablock ?img = 4" by (simp add: small_layout)
  have "\<exists>i<unat (sb_nblocks small_sb).
          1 < direct_uses ?img (of_nat i + firstdatablock ?img)
          \<and> (\<forall>k<i. direct_uses ?img (of_nat k + firstdatablock ?img) \<le> 1 \<and> [0 :: u32] ! k \<le> 1)"
  proof (intro exI [of _ 0] conjI)
    show "0 < unat (sb_nblocks small_sb)" by (simp add: small_sb_sel)
    show "1 < direct_uses ?img (of_nat 0 + firstdatablock ?img)" by (simp only: f dup_uses)
    show "\<forall>k<0. direct_uses ?img (of_nat k + firstdatablock ?img) \<le> 1 \<and> [0 :: u32] ! k \<le> 1"
      by simp
  qed
  then show ?thesis
    using direct_twice_reported [OF read_sb_images(5) dup_inode dup_bitmap dup_count o,
        of "Suc 0"] dup_uses dup_blockaddrs
    by blast
qed

section \<open>The dot entries\<close>

lemma scan_entries_done: "found_both pc \<Longrightarrow> scan_entries img inum des pc = Inr pc"
  by (cases des) simp_all

lemma scan_entries_append:
  "scan_entries img inum (xs @ ys) pc
     = bindE (scan_entries img inum xs pc) (scan_entries img inum ys)"
proof (induction xs arbitrary: pc)
  case Nil
  then show ?case by simp
next
  case (Cons x xs)
  show ?case
  proof (cases "found_both pc")
    case True
    then show ?thesis by (simp add: scan_entries_done)
  next
    case False
    then show ?thesis
      by (cases "check_dir_entry img inum x pc") (simp_all add: Cons)
  qed
qed

lemma check_dir_block_scan:
  "\<not> found_both pc \<Longrightarrow>
     check_dir_block img inum blockaddr js pc
       = scan_entries img inum (map (dirent_ptr blockaddr) js) pc"
proof (induction js arbitrary: pc)
  case Nil
  then show ?case by simp
next
  case (Cons j js)
  show ?case
  proof (cases "check_dir_entry img inum (dirent_ptr blockaddr j) pc")
    case (Inl e)
    then show ?thesis using Cons.prems by simp
  next
    case (Inr pc')
    then show ?thesis using Cons.prems Cons.IH [of pc']
      by (cases "found_both pc'") (simp_all add: scan_entries_done)
  qed
qed

lemma check_dir_blocks_scan:
  assumes "\<forall>i\<in>set is. \<exists>a. dinode_addrs img inode i = Inr a" and "\<not> found_both pc"
  shows "check_dir_blocks img inode inum is pc
       = scan_entries img inum
           (concat (map (\<lambda>a. map (dirent_ptr a) [0..<DPB])
              (filter (\<lambda>a. a \<noteq> 0) (map (\<lambda>i. addr_of (dinode_addrs img inode i)) is)))) pc"
  using assms
proof (induction "is" arbitrary: pc)
  case Nil
  then show ?case by simp
next
  case (Cons i "is")
  then obtain a where a: "dinode_addrs img inode i = Inr a" by auto
  show ?case
  proof (cases "a = 0")
    case True
    then show ?thesis using Cons by (simp add: a addr_of_def)
  next
    case False
    let ?rest = "concat (map (\<lambda>a. map (dirent_ptr a) [0..<DPB])
              (filter (\<lambda>a. a \<noteq> 0) (map (\<lambda>i. addr_of (dinode_addrs img inode i)) is)))"
    have b: "check_dir_block img inum a [0..<DPB] pc
        = scan_entries img inum (map (dirent_ptr a) [0..<DPB]) pc"
      using Cons.prems(2) by (rule check_dir_block_scan)
    show ?thesis
    proof (cases "scan_entries img inum (map (dirent_ptr a) [0..<DPB]) pc")
      case (Inl e)
      then show ?thesis using False by (simp add: a addr_of_def b scan_entries_append)
    next
      case (Inr pc')
      show ?thesis
      proof (cases "found_both pc'")
        case True
        then show ?thesis using False Inr
          by (simp add: a addr_of_def b scan_entries_append scan_entries_done)
      next
        case nb: False
        have "check_dir_blocks img inode inum is pc' = scan_entries img inum ?rest pc'"
          using Cons.prems(1) nb by (intro Cons.IH) simp_all
        then show ?thesis using False Inr nb
          by (simp add: a addr_of_def b scan_entries_append)
      qed
    qed
  qed
qed

lemma check_dir_scan:
  assumes "inode_readable img inode"
  shows "check_dir img inode inum
     = bindE (scan_entries img inum (dirent_ptrs img inode) (False, False)) (\<lambda>pc.
         if \<not> fst pc \<or> \<not> snd pc then Inl (Exit1 BadDirFormat) else Inr ())"
proof -
  have "\<forall>i\<in>set [0..<NDIRECT]. \<exists>a. dinode_addrs img inode i = Inr a"
    using dinode_addrs_readable [OF assms] by auto
  then show ?thesis
    by (simp add: check_dir_def check_dir_blocks_scan dirent_ptrs_def direct_addrs_def
        found_both_def)
qed


lemma rd8_Inr: "a < length m \<Longrightarrow> rd8 m a = Inr (m ! a)"
  by (simp add: rd8_def)

lemma dirent_name_dot:
  assumes "dirent_readable img de"
  shows "dirent_name_is img de dot
     = Inr (mmapimage img ! (de + 2) = 46 \<and> mmapimage img ! (de + 3) = 0)"
  using assms
  by (simp add: dirent_readable_def dirent_name_is_def dot_def rd8_Inr DIRENT_SIZE_def
      eval_nat_numeral)

lemma dirent_name_dotdot:
  assumes "dirent_readable img de"
  shows "dirent_name_is img de dotdot
     = Inr (mmapimage img ! (de + 2) = 46 \<and> mmapimage img ! (de + 3) = 46
            \<and> mmapimage img ! (de + 4) = 0)"
  using assms
  by (simp add: dirent_readable_def dirent_name_is_def dotdot_def rd8_Inr DIRENT_SIZE_def
      eval_nat_numeral)

lemma dirent_names:
  assumes "dirent_readable img de"
  shows "dirent_name_is img de dot = Inr (is_dot img de)"
    and "dirent_name_is img de dotdot = Inr (is_dotdot img de)"
    and "\<not> (is_dot img de \<and> is_dotdot img de)"
  by (auto simp: is_dot_def is_dotdot_def dirent_name_dot [OF assms] dirent_name_dotdot [OF assms])

lemma dirent_inum_readable:
  assumes "dirent_readable img de"
  shows "\<exists>n. dirent_inum img de = Inr n \<and> unat n = de_inum img de"
proof -
  obtain n where "dirent_inum img de = Inr n"
    using assms rd16_Inr [of de "mmapimage img"]
    by (auto simp: dirent_readable_def dirent_inum_def DIRENT_SIZE_def)
  then show ?thesis by (simp add: de_inum_def)
qed

lemma check_dir_entry_eq:
  assumes "dirent_readable img de"
  shows "check_dir_entry img inum de (p, c) =
     (if \<not> c \<and> is_dot img de \<and> de_inum img de \<noteq> inum then Inl (Exit1 BadDirFormat)
      else if \<not> p \<and> is_dotdot img de \<and> \<not> parent_ok img inum de then Inl (Exit1 RootMissing)
      else Inr (p \<or> is_dotdot img de, c \<or> is_dot img de))"
proof -
  obtain n where n: "dirent_inum img de = Inr n" "unat n = de_inum img de"
    using dirent_inum_readable [OF assms] by auto
  show ?thesis
    using dirent_names(3) [OF assms]
    by (auto simp: check_dir_entry_def dirent_names(1,2) [OF assms] n parent_ok_def)
qed


lemma dot_scan_from_Nil: "dot_scan_from img inum [] pc = Inr pc"
  by (cases pc) (auto simp: dot_scan_from_def)

lemma dot_scan_from_done: "found_both pc \<Longrightarrow> dot_scan_from img inum des pc = Inr pc"
  by (cases pc) (auto simp: dot_scan_from_def found_both_def)

lemma dot_scan_from_Cons:
  assumes x: "\<not> (is_dot img de \<and> is_dotdot img de)"
  shows "dot_scan_from img inum (de # des) (p, c) =
     (if \<not> c \<and> is_dot img de \<and> de_inum img de \<noteq> inum then Inl (Exit1 BadDirFormat)
      else if \<not> p \<and> is_dotdot img de \<and> \<not> parent_ok img inum de then Inl (Exit1 RootMissing)
      else dot_scan_from img inum des (p \<or> is_dotdot img de, c \<or> is_dot img de))"
  using x
  by (cases p; cases c; cases "is_dot img de"; cases "is_dotdot img de")
     (simp_all add: dot_scan_from_def Let_def split: option.splits)

lemma scan_entries_eq:
  "list_all (dirent_readable img) des \<Longrightarrow>
     scan_entries img inum des pc = dot_scan_from img inum des pc"
proof (induction des arbitrary: pc)
  case Nil
  then show ?case by (simp add: dot_scan_from_Nil)
next
  case (Cons de des)
  obtain p c where pc: "pc = (p, c)" by (cases pc)
  have r: "dirent_readable img de" and rs: "list_all (dirent_readable img) des"
    using Cons.prems by simp_all
  show ?case
  proof (cases "found_both pc")
    case True
    then show ?thesis by (simp add: dot_scan_from_done)
  next
    case False
    then show ?thesis
      unfolding pc
      by (simp add: check_dir_entry_eq [OF r] dot_scan_from_Cons [OF dirent_names(3) [OF r]]
          Cons.IH [OF rs])
  qed
qed

lemma dot_scan_from_start:
  "bindE (dot_scan_from img inum des (False, False)) (\<lambda>pc.
         if \<not> fst pc \<or> \<not> snd pc then Inl (Exit1 BadDirFormat) else Inr ())
     = dot_scan img inum des"
  by (auto simp: dot_scan_from_def dot_scan_def Let_def split: option.splits)

lemma dot_scan_from_both:
  assumes "list_ex (is_dot img) des" and "list_ex (is_dotdot img) des"
  shows "(\<exists>e. dot_scan_from img inum des (False, False) = Inl e)
       \<or> dot_scan_from img inum des (False, False) = Inr (True, True)"
proof -
  have "find (is_dot img) des \<noteq> None" "find (is_dotdot img) des \<noteq> None"
    using assms by (auto simp: find_None_iff list_ex_iff)
  then show ?thesis
    by (auto simp: dot_scan_from_def Let_def split: option.splits)
qed

text \<open>
  C8. Let the inode of a directory lie inside the mapped image, and take the first \<open>n\<close>
  entries of its data blocks, in the order of the scan, all inside the image: either all
  the entries of the directory, or enough of them to hold an entry named \<^verbatim>\<open>.\<close> and an entry
  named \<^verbatim>\<open>..\<close>. Then \<^verbatim>\<open>check_dir\<close> returns what \<open>dot_scan\<close> returns on these entries alone:
  the first \<^verbatim>\<open>.\<close> and the first \<^verbatim>\<open>..\<close> decide, the entries after the point where both are
  found are not read and cannot be rejected, whatever their names, and a directory scanned
  to its end without one of the two names is malformed.
\<close>

theorem check_dir_first_dots:
  assumes r: "inode_readable img inode"
    and e: "list_all (dirent_readable img) (take n (dirent_ptrs img inode))"
    and s: "length (dirent_ptrs img inode) \<le> n
            \<or> (list_ex (is_dot img) (take n (dirent_ptrs img inode))
                \<and> list_ex (is_dotdot img) (take n (dirent_ptrs img inode)))"
  shows "check_dir img inode inum = dot_scan img inum (take n (dirent_ptrs img inode))"
proof -
  let ?all = "dirent_ptrs img inode"
  let ?des = "take n ?all"
  let ?fin = "\<lambda>pc. if \<not> fst pc \<or> \<not> snd pc then Inl (Exit1 BadDirFormat) else Inr ()"
  have c: "check_dir img inode inum = bindE (scan_entries img inum ?all (False, False)) ?fin"
    by (rule check_dir_scan [OF r])
  have a: "scan_entries img inum ?all (False, False)
      = bindE (dot_scan_from img inum ?des (False, False)) (scan_entries img inum (drop n ?all))"
    using scan_entries_append [of img inum ?des "drop n ?all" "(False, False)"]
    by (simp add: scan_entries_eq [OF e])
  from s show ?thesis
  proof
    assume "length ?all \<le> n"
    then have "drop n ?all = []" by simp
    then have "scan_entries img inum ?all (False, False)
        = dot_scan_from img inum ?des (False, False)"
      using a by (cases "dot_scan_from img inum ?des (False, False)") simp_all
    then show ?thesis by (simp only: c dot_scan_from_start)
  next
    assume "list_ex (is_dot img) ?des \<and> list_ex (is_dotdot img) ?des"
    then have "(\<exists>e. dot_scan_from img inum ?des (False, False) = Inl e)
       \<or> dot_scan_from img inum ?des (False, False) = Inr (True, True)"
      using dot_scan_from_both by blast
    then have "scan_entries img inum ?all (False, False)
        = dot_scan_from img inum ?des (False, False)"
      using a by (auto simp: scan_entries_done found_both_def)
    then show ?thesis by (simp only: c dot_scan_from_start)
  qed
qed


lemmas dir_preds = dirent_readable_def is_dot_def is_dotdot_def de_inum_def parent_ok_def
  dirent_ptrs_def dot_scan_def

lemma dup_dot_ptrs:
  "take 2 (dirent_ptrs (layout small_sb dup_dot_image) (inode_ptr (layout small_sb dup_dot_image) 1))
     = [2048, 2064]"
  by (simp add: small_layout small_sb_sel spec_preds dir_preds fs_consts accessors loops images
      dup_dot_image_def)

lemma dup_dot_third:
  "dirent_ptrs (layout small_sb dup_dot_image) (inode_ptr (layout small_sb dup_dot_image) 1) ! 2
     = 2080"
  by (simp add: small_layout small_sb_sel spec_preds dir_preds fs_consts accessors loops images
      dup_dot_image_def)

lemma dup_dot_entries:
  "is_dot (layout small_sb dup_dot_image) 2048"
  "is_dotdot (layout small_sb dup_dot_image) 2064"
  "is_dot (layout small_sb dup_dot_image) 2080"
  "de_inum (layout small_sb dup_dot_image) 2080 = 7"
  "dirent_readable (layout small_sb dup_dot_image) 2048"
  "dirent_readable (layout small_sb dup_dot_image) 2064"
  "inode_readable (layout small_sb dup_dot_image) (inode_ptr (layout small_sb dup_dot_image) 1)"
  by (simp_all add: small_layout small_sb_sel spec_preds dir_preds fs_consts accessors images
      dup_dot_image_def)

lemma dup_dot_scan: "dot_scan (layout small_sb dup_dot_image) 1 [2048, 2064] = Inr ()"
  by (simp add: small_layout small_sb_sel spec_preds dir_preds fs_consts accessors images
      dup_dot_image_def)

theorem check_dir_first_dots_witness:
  "is_dot (layout small_sb dup_dot_image)
     (dirent_ptrs (layout small_sb dup_dot_image) (inode_ptr (layout small_sb dup_dot_image) 1) ! 2)
   \<and> de_inum (layout small_sb dup_dot_image)
     (dirent_ptrs (layout small_sb dup_dot_image) (inode_ptr (layout small_sb dup_dot_image) 1) ! 2)
       = 7
   \<and> check_dir (layout small_sb dup_dot_image) (inode_ptr (layout small_sb dup_dot_image) 1) 1
       = Inr ()"
proof -
  let ?img = "layout small_sb dup_dot_image"
  let ?ip = "inode_ptr ?img 1"
  have e: "list_all (dirent_readable ?img) (take 2 (dirent_ptrs ?img ?ip))"
    by (simp only: dup_dot_ptrs) (simp add: dup_dot_entries)
  have s: "length (dirent_ptrs ?img ?ip) \<le> 2
       \<or> (list_ex (is_dot ?img) (take 2 (dirent_ptrs ?img ?ip))
           \<and> list_ex (is_dotdot ?img) (take 2 (dirent_ptrs ?img ?ip)))"
    by (simp only: dup_dot_ptrs) (simp add: dup_dot_entries)
  have "check_dir ?img ?ip 1 = dot_scan ?img 1 (take 2 (dirent_ptrs ?img ?ip))"
    by (rule check_dir_first_dots [OF dup_dot_entries(7) e s])
  then have "check_dir ?img ?ip 1 = Inr ()" by (simp only: dup_dot_ptrs dup_dot_scan)
  then show ?thesis by (simp only: dup_dot_third dup_dot_entries simp_thms)
qed

section \<open>The directory walk\<close>


lemma foldP_pres:
  assumes "I s" and "foldP f xs s = Some (Inr s')"
    and "\<And>x s s'. x \<in> set xs \<Longrightarrow> I s \<Longrightarrow> f x s = Some (Inr s') \<Longrightarrow> I s'"
  shows "I s'"
  using assms
proof (induction xs arbitrary: s)
  case Nil
  then show ?case by simp
next
  case (Cons x xs)
  from Cons.prems(2) obtain s1 where s1: "f x s = Some (Inr s1)"
    and r: "foldP f xs s1 = Some (Inr s')"
    by (auto split: option.splits sum.splits)
  have i1: "I s1" using Cons.prems(3) [of x s s1] Cons.prems(1) s1 by simp
  have step: "\<And>y s s'. y \<in> set xs \<Longrightarrow> I s \<Longrightarrow> f y s = Some (Inr s') \<Longrightarrow> I s'"
    using Cons.prems(3) by (meson list.set_intros(2))
  show ?case by (rule Cons.IH [OF i1 r step])
qed



































end
